theory Spec2Isabelle
  imports Main "HOL-Library.Log_Nat"
begin

section \<open>A client-side image converter (script.js)\<close>

text \<open>
  The script is a set of event handlers over a handful of page elements and two
  module-level variables. The page is a record, every handler is a function from page to
  page, and a handler that registers a callback returns, next to the page, what it is now
  waiting for. What the browser decides (whether a read fails, whether the canvas throws,
  what the encoder hands back) is an argument of the handler concerned.

  A \<open>char\<close> stands for one code unit of a JavaScript string. Only code units below 256
  exist in HOL; the script inspects no others (white space, sign, digits, the dot and the
  slash).
\<close>

subsection \<open>Numbers\<close>

text \<open>
  JavaScript numbers are IEEE binary64 values. \<open>Dbl m e\<close> is the value \<open>m * 2 ^ e\<close>.
  \<open>nearest p q\<close> is the binary64 value nearest to the positive fraction \<open>p / q\<close>: the
  exponent is chosen so that the significand has 53 bits, and the quotient is rounded to
  the nearest integer, a tie going to the even one. This is what \<open>/\<close> and \<open>*\<close> return
  when both operands are exact, as they are here: the natural dimensions of an image and a
  quality between 1 and 100 are integers far below \<open>2 ^ 53\<close>. Subnormal values, overflow
  and negative operands are not reached by the script's arithmetic and are not modelled;
  \<open>nearest\<close> gives zero for an operand that is not positive.
\<close>

datatype number = Dbl int int

definition rne_div :: "int \<Rightarrow> int \<Rightarrow> int" where
  "rne_div a b =
     (let f = a div b; r = a mod b
      in if 2 * r < b then f
         else if b < 2 * r then f + 1
         else if even f then f else f + 1)"

definition nearest :: "int \<Rightarrow> int \<Rightarrow> number" where
  "nearest p q =
     (if p \<le> 0 \<or> q \<le> 0 then Dbl 0 0
      else
        let k = bitlen p - bitlen q;
            ex = (if (if 0 \<le> k then q * 2 ^ nat k \<le> p else q \<le> p * 2 ^ nat (- k))
                  then k else k - 1);
            e = ex - 52
        in Dbl (if 0 \<le> e then rne_div p (q * 2 ^ nat e)
                else rne_div (p * 2 ^ nat (- e)) q) e)"

text \<open>\<open>a / b\<close> for two integer-valued numbers.\<close>

definition number_div :: "int \<Rightarrow> int \<Rightarrow> number" where
  "number_div a b = nearest a b"

text \<open>\<open>d * w\<close> for a number and an integer-valued number.\<close>

definition number_mul :: "number \<Rightarrow> int \<Rightarrow> number" where
  "number_mul d w =
     (case d of Dbl m e \<Rightarrow>
        if 0 \<le> e then nearest (m * w * 2 ^ nat e) 1
        else nearest (m * w) (2 ^ nat (- e)))"

text \<open>\<open>Math.round\<close>: the integer nearest to the argument, a tie going up.\<close>

definition Math_round :: "number \<Rightarrow> int" where
  "Math_round d =
     (case d of Dbl m e \<Rightarrow>
        if 0 \<le> e then m * 2 ^ nat e
        else (2 * m + 2 ^ nat (- e)) div 2 ^ nat (1 - e))"

subsection \<open>Reading the controls\<close>

text \<open>
  \<open>parseInt(s, 10)\<close>: leading white space is skipped, one sign is accepted, then the
  longest run of decimal digits is read; with no digit the result is \<open>NaN\<close>, here
  \<open>None\<close>. The result is kept as an unbounded integer. JavaScript rounds a result
  beyond \<open>2 ^ 53\<close>, but the script only compares such a value with 1, with 100 and with a
  natural width, and these comparisons come out the same.
\<close>

definition isWhiteSpace :: "char \<Rightarrow> bool" where
  "isWhiteSpace c = (of_char c \<in> {9, 10, 11, 12, 13, 32, 160 :: nat})"

definition isDigit :: "char \<Rightarrow> bool" where
  "isDigit c = (48 \<le> (of_char c :: nat) \<and> (of_char c :: nat) \<le> 57)"

definition digitValue :: "char \<Rightarrow> int" where
  "digitValue c = int (of_char c) - 48"

definition parseDigits :: "string \<Rightarrow> int option" where
  "parseDigits u =
     (let z = takeWhile isDigit u
      in if z = [] then None else Some (foldl (\<lambda>a c. 10 * a + digitValue c) 0 z))"

definition parseInt :: "string \<Rightarrow> int option" where
  "parseInt s =
     (case dropWhile isWhiteSpace s of
        [] \<Rightarrow> None
      | c # cs \<Rightarrow>
          if c = CHR ''-'' then map_option uminus (parseDigits cs)
          else if c = CHR ''+'' then parseDigits cs
          else parseDigits (c # cs))"

text \<open>
  Lines 93 to 95: \<open>let quality = parseInt(qualityInput.value, 10);
  if (isNaN(quality) || quality < 1) quality = 90; if (quality > 100) quality = 100;\<close>
\<close>

definition qualityOf :: "string \<Rightarrow> int" where
  "qualityOf v =
     (let quality = (case parseInt v of None \<Rightarrow> 90 | Some n \<Rightarrow> if n < 1 then 90 else n)
      in if 100 < quality then 100 else quality)"

text \<open>Line 130: \<open>Math.max(1, Math.min(100, quality)) / 100\<close>.\<close>

definition blobQuality :: "int \<Rightarrow> number" where
  "blobQuality quality = number_div (max 1 (min 100 quality)) 100"

text \<open>Line 98: \<open>parseInt(widthInput.value, 10) || null\<close>; \<open>NaN\<close> and zero are falsy.\<close>

definition requestedWidthOf :: "string \<Rightarrow> int option" where
  "requestedWidthOf v =
     (case parseInt v of None \<Rightarrow> None | Some n \<Rightarrow> if n = 0 then None else Some n)"

text \<open>Line 92: \<open>formatSelect.value || 'image/png'\<close>.\<close>

definition outTypeOf :: "string \<Rightarrow> string" where
  "outTypeOf v = (if v = [] then ''image/png'' else v)"

text \<open>
  Lines 106 to 111, for natural dimensions that passed the readiness guard:
  the target width and height.
\<close>

definition targetSize :: "int option \<Rightarrow> nat \<Rightarrow> nat \<Rightarrow> nat \<times> nat" where
  "targetSize requestedWidth naturalW naturalH =
     (case requestedWidth of
        None \<Rightarrow> (naturalW, naturalH)
      | Some w \<Rightarrow>
          if 0 < w \<and> w < int naturalW
          then (nat w,
                nat (Math_round (number_mul (number_div (int naturalH) (int naturalW)) w)))
          else (naturalW, naturalH))"

subsection \<open>File names\<close>

definition mimeToExt :: "string \<Rightarrow> string" where
  "mimeToExt mime =
     (if mime = ''image/jpeg'' then ''jpg''
      else if mime = ''image/png'' then ''png''
      else if mime = ''image/webp'' then ''webp''
      else ''img'')"

text \<open>
  \<open>name.replace(/\.[^/.]+$/, '')\<close>: the leftmost position where a dot is followed, up to
  the end of the string, by one or more characters that are neither a slash nor a dot;
  the string is cut there. Without such a position the string is returned as it is.
\<close>

definition extChar :: "char \<Rightarrow> bool" where
  "extChar c = (c \<noteq> CHR ''/'' \<and> c \<noteq> CHR ''.'')"

fun stripExt :: "string \<Rightarrow> string" where
  "stripExt [] = []"
| "stripExt (c # cs) =
     (if c = CHR ''.'' \<and> cs \<noteq> [] \<and> list_all extChar cs then [] else c # stripExt cs)"

subsection \<open>The page\<close>

record File =
  name :: string
  type :: string

record Blob =
  bytes :: nat
  mime :: string

record image =
  src :: string
  complete :: bool
  naturalWidth :: nat
  naturalHeight :: nat

text \<open>
  The status line. \<open>Plain\<close> carries a literal text; the two template texts keep their
  parts: \<open>Loaded n w h\<close> is \<open>Loaded: n\<close>, a dash and \<open>w\<close> by \<open>h\<close>, and \<open>Converted n k\<close>
  is \<open>Converted: n (size: k KB)\<close>.
\<close>

datatype message = Plain string | Loaded string nat nat | Converted string nat

text \<open>What the script asks of the platform, in the order of the calls.\<close>

datatype effect =
    ReadAsDataURL File
  | ClearRect nat nat
  | DrawImage nat nat
  | ToBlob string number
  | ToDataURL string number
  | LoadTemp string
  | Download string Blob

record page =
  currentFile :: "File option"
  previewImg :: image
  imgElement :: image
  imageInput :: string
  formatSelect :: string
  qualityInput :: string
  widthInput :: string
  canvasWidth :: nat
  canvasHeight :: nat
  message :: message
  isError :: bool
  effects :: "effect list"

text \<open>
  The platform's answers to the synchronous calls of \<open>drawImage\<close>: the exception of
  \<open>ctx.drawImage\<close> if it throws, whether \<open>canvas.toBlob\<close> exists, what
  \<open>dataURLtoBlob(canvas.toDataURL(type, quality))\<close> gives in the fallback branch (the
  message of the exception, or the blob), and the URL that \<open>URL.createObjectURL\<close> makes
  for a file.
\<close>

record platform =
  drawImageThrows :: "string option"
  hasToBlob :: bool
  dataURLBlob :: "string \<Rightarrow> number \<Rightarrow> string + Blob"
  createObjectURL :: "File \<Rightarrow> string"

text \<open>The variables a conversion's callbacks close over.\<close>

record job =
  outType :: string
  quality :: int

text \<open>The callback a conversion is waiting for.\<close>

datatype pending = Settled | AwaitTemp job string | AwaitBlob job

definition run_effect :: "effect \<Rightarrow> page \<Rightarrow> page" where
  "run_effect x p = p\<lparr>effects := effects p @ [x]\<rparr>"

definition showMessage :: "message \<Rightarrow> bool \<Rightarrow> page \<Rightarrow> page" where
  "showMessage text err p = p\<lparr>message := text, isError := err\<rparr>"

subsection \<open>Loading a file\<close>

definition startsWith :: "string \<Rightarrow> string \<Rightarrow> bool" where
  "startsWith s pre = (take (length pre) s = pre)"

text \<open>
  \<open>loadFile\<close> up to the call of \<open>readAsDataURL\<close>; the second component is the file whose
  read has been started, if any.
\<close>

definition loadFile :: "File \<Rightarrow> page \<Rightarrow> page \<times> File option" where
  "loadFile f p =
     (if \<not> startsWith (type f) ''image/''
      then (showMessage (Plain ''Please upload a valid image file.'') True p, None)
      else (run_effect (ReadAsDataURL f) (p\<lparr>currentFile := Some f\<rparr>), Some f))"

definition reader_onload :: "string \<Rightarrow> page \<Rightarrow> page" where
  "reader_onload result p = p\<lparr>previewImg := (previewImg p)\<lparr>src := result\<rparr>\<rparr>"

definition reader_onerror :: "page \<Rightarrow> page" where
  "reader_onerror p = showMessage (Plain ''Failed to read file.'') True p"

text \<open>
  The preview's \<open>load\<close> event: the platform has decoded the image of natural size
  \<open>w\<close> by \<open>h\<close>, and the handler set by \<open>reader.onload\<close> for the file \<open>f\<close> runs.
\<close>

definition previewImg_onload :: "File \<Rightarrow> nat \<Rightarrow> nat \<Rightarrow> page \<Rightarrow> page" where
  "previewImg_onload f w h p =
     showMessage (Loaded (name f) w h) False
       (p\<lparr>previewImg := (previewImg p)\<lparr>complete := True, naturalWidth := w, naturalHeight := h\<rparr>\<rparr>)"

datatype read_outcome = ReadOk string | ReadFailed

text \<open>A load up to the end of the read.\<close>

definition load :: "File \<Rightarrow> read_outcome \<Rightarrow> page \<Rightarrow> page" where
  "load f r p =
     (case loadFile f p of
        (p1, None) \<Rightarrow> p1
      | (p1, Some g) \<Rightarrow>
          (case r of ReadOk result \<Rightarrow> reader_onload result p1 | ReadFailed \<Rightarrow> reader_onerror p1))"

subsection \<open>Converting\<close>

text \<open>Lines 171 and 172: the name of the downloaded file.\<close>

definition outName :: "File option \<Rightarrow> string \<Rightarrow> string" where
  "outName cf t =
     (let ext = mimeToExt t;
          baseName = (case cf of
                        None \<Rightarrow> ''converted-image''
                      | Some f \<Rightarrow> if name f = [] then ''converted-image'' else stripExt (name f))
      in baseName @ ''.'' @ ext)"

definition triggerDownload :: "job \<Rightarrow> Blob \<Rightarrow> page \<Rightarrow> page" where
  "triggerDownload j b p =
     (let n = outName (currentFile p) (outType j)
      in showMessage (Converted n ((2 * bytes b + 1024) div 2048)) False
           (run_effect (Download n b) p))"

definition toBlob_callback :: "job \<Rightarrow> Blob option \<Rightarrow> page \<Rightarrow> page" where
  "toBlob_callback j b p =
     (case b of
        None \<Rightarrow> showMessage (Plain ''Conversion failed (blob is empty).'') True p
      | Some bl \<Rightarrow> triggerDownload j bl p)"

definition drawImage :: "platform \<Rightarrow> job \<Rightarrow> page \<Rightarrow> page \<times> pending" where
  "drawImage pf j p =
     (case drawImageThrows pf of
        Some err \<Rightarrow>
          (showMessage (Plain (''Error drawing image to canvas: '' @ err)) True p, Settled)
      | None \<Rightarrow>
          let p1 = run_effect (DrawImage (canvasWidth p) (canvasHeight p)) p;
              bq = blobQuality (quality j)
          in if hasToBlob pf then (run_effect (ToBlob (outType j) bq) p1, AwaitBlob j)
             else
               let p2 = run_effect (ToDataURL (outType j) bq) p1
               in (case dataURLBlob pf (outType j) bq of
                     Inl err \<Rightarrow> (showMessage (Plain (''Conversion failed: '' @ err)) True p2, Settled)
                   | Inr bl \<Rightarrow> (triggerDownload j bl p2, Settled)))"

definition temp_onload :: "platform \<Rightarrow> job \<Rightarrow> string \<Rightarrow> page \<Rightarrow> page \<times> pending" where
  "temp_onload pf j tsrc p = drawImage pf j (p\<lparr>previewImg := (previewImg p)\<lparr>src := tsrc\<rparr>\<rparr>)"

definition temp_onerror :: "page \<Rightarrow> page" where
  "temp_onerror p = showMessage (Plain ''Failed to load image for conversion.'') True p"

text \<open>\<open>a || b\<close> on two natural dimensions.\<close>

definition orElse :: "nat \<Rightarrow> nat \<Rightarrow> nat" where
  "orElse a b = (if a \<noteq> 0 then a else b)"

text \<open>
  The click handler of the convert button. In the last branch the source of the
  auxiliary image is \<open>previewImg.src || URL.createObjectURL(currentFile)\<close>; the first
  guard has excluded an empty source together with no current file.
\<close>

definition convert_click :: "platform \<Rightarrow> page \<Rightarrow> page \<times> pending" where
  "convert_click pf p =
     (if currentFile p = None \<and> src (previewImg p) = []
      then (showMessage (Plain ''Choose or drop an image first.'') True p, Settled)
      else
        let j = \<lparr>outType = outTypeOf (formatSelect p), quality = qualityOf (qualityInput p)\<rparr>;
            requestedWidth = requestedWidthOf (widthInput p);
            naturalW = orElse (naturalWidth (previewImg p)) (naturalWidth (imgElement p));
            naturalH = orElse (naturalHeight (previewImg p)) (naturalHeight (imgElement p))
        in if naturalW = 0 \<or> naturalH = 0
           then (showMessage (Plain ''Image not ready yet. Wait a moment and try again.'') True p,
                 Settled)
           else
             let (targetWidth, targetHeight) = targetSize requestedWidth naturalW naturalH;
                 p1 = run_effect (ClearRect targetWidth targetHeight)
                        (p\<lparr>canvasWidth := targetWidth, canvasHeight := targetHeight\<rparr>);
                 (p2, w) =
                   (if complete (previewImg p1) \<and> naturalWidth (previewImg p1) \<noteq> 0
                    then drawImage pf j p1
                    else
                      let tsrc = (if src (previewImg p1) \<noteq> [] then src (previewImg p1)
                                  else (case currentFile p1 of
                                          Some f \<Rightarrow> createObjectURL pf f
                                        | None \<Rightarrow> []))
                      in (run_effect (LoadTemp tsrc) p1, AwaitTemp j tsrc))
             in (showMessage (Plain ''Processing...'') False p2, w))"

text \<open>
  The events that can follow a click, and their delivery: an event runs the callback the
  conversion is waiting for, and nothing when no such callback is registered.
\<close>

datatype event = TempLoaded | TempFailed | BlobReady "Blob option"

fun deliver :: "platform \<Rightarrow> event \<Rightarrow> page \<times> pending \<Rightarrow> page \<times> pending" where
  "deliver pf TempLoaded (p, AwaitTemp j tsrc) = temp_onload pf j tsrc p"
| "deliver pf TempFailed (p, AwaitTemp j tsrc) = (temp_onerror p, Settled)"
| "deliver pf (BlobReady b) (p, AwaitBlob j) = (toBlob_callback j b p, Settled)"
| "deliver pf ev c = c"

text \<open>
  The page before any file is chosen. The values of the three controls come from the
  document's markup, which is no part of the script; they are empty here, and the
  examples below set them. A canvas is 300 by 150 until it is resized.
\<close>

definition initial :: page where
  "initial =
     \<lparr>currentFile = None,
      previewImg = \<lparr>src = [], complete = False, naturalWidth = 0, naturalHeight = 0\<rparr>,
      imgElement = \<lparr>src = [], complete = False, naturalWidth = 0, naturalHeight = 0\<rparr>,
      imageInput = [], formatSelect = [], qualityInput = [], widthInput = [],
      canvasWidth = 300, canvasHeight = 150,
      message = Plain [], isError = False, effects = []\<rparr>"

subsection \<open>The specification's height, and measures on a conversion\<close>

text \<open>
  The specification's words for the target height: round (natural height times target
  width over natural width), on exact fractions, a tie going up.
\<close>

definition spec_targetHeight :: "nat \<Rightarrow> nat \<Rightarrow> nat \<Rightarrow> int" where
  "spec_targetHeight naturalH targetWidth naturalW =
     round (rat_of_nat naturalH * rat_of_nat targetWidth / rat_of_nat naturalW)"

text \<open>How many callbacks a conversion may still run.\<close>

fun rank :: "pending \<Rightarrow> nat" where
  "rank Settled = 0"
| "rank (AwaitBlob j) = 1"
| "rank (AwaitTemp j tsrc) = 2"

text \<open>Whether the conversion has a callback for the event.\<close>

fun registered :: "event \<Rightarrow> pending \<Rightarrow> bool" where
  "registered TempLoaded (AwaitTemp j tsrc) = True"
| "registered TempFailed (AwaitTemp j tsrc) = True"
| "registered (BlobReady b) (AwaitBlob j) = True"
| "registered ev w = False"

text \<open>A conversion under a sequence of events, and the number of callbacks it runs.\<close>

fun run :: "platform \<Rightarrow> event list \<Rightarrow> page \<times> pending \<Rightarrow> page \<times> pending" where
  "run pf [] c = c"
| "run pf (ev # evs) c = run pf evs (deliver pf ev c)"

fun callbacks :: "platform \<Rightarrow> event list \<Rightarrow> page \<times> pending \<Rightarrow> nat" where
  "callbacks pf [] c = 0"
| "callbacks pf (ev # evs) c =
     (if registered ev (snd c) then 1 else 0) + callbacks pf evs (deliver pf ev c)"

fun isLoadTemp :: "effect \<Rightarrow> bool" where
  "isLoadTemp (LoadTemp s) = True"
| "isLoadTemp x = False"

fun isDrawImage :: "effect \<Rightarrow> bool" where
  "isDrawImage (DrawImage w h) = True"
| "isDrawImage x = False"

fun isDownload :: "effect \<Rightarrow> bool" where
  "isDownload (Download n b) = True"
| "isDownload x = False"

definition tempLoads :: "page \<Rightarrow> nat" where
  "tempLoads p = length (filter isLoadTemp (effects p))"

definition draws :: "page \<Rightarrow> nat" where
  "draws p = length (filter isDrawImage (effects p))"

definition downloads :: "page \<Rightarrow> effect list" where
  "downloads p = filter isDownload (effects p)"

text \<open>Whether the auxiliary image may still lead to a draw.\<close>

fun drawsLeft :: "pending \<Rightarrow> nat" where
  "drawsLeft (AwaitTemp j tsrc) = 1"
| "drawsLeft w = 0"

text \<open>
  An effect agrees with the output type \<open>t\<close> when it encodes with \<open>t\<close> or downloads a
  file whose name ends in the extension of \<open>t\<close>; a conversion agrees with \<open>t\<close> from
  the \<open>n\<close>-th effect on when the effects after the first \<open>n\<close> do and its callbacks
  have captured \<open>t\<close>.
\<close>

definition endsWith :: "string \<Rightarrow> string \<Rightarrow> bool" where
  "endsWith s suf = (length suf \<le> length s \<and> drop (length s - length suf) s = suf)"

fun usesType :: "string \<Rightarrow> effect \<Rightarrow> bool" where
  "usesType t (ToBlob t' q) = (t' = t)"
| "usesType t (ToDataURL t' q) = (t' = t)"
| "usesType t (Download n b) = endsWith n (''.'' @ mimeToExt t)"
| "usesType t x = True"

fun jobType :: "string \<Rightarrow> pending \<Rightarrow> bool" where
  "jobType t Settled = True"
| "jobType t (AwaitTemp j tsrc) = (outType j = t)"
| "jobType t (AwaitBlob j) = (outType j = t)"

definition conforms :: "string \<Rightarrow> nat \<Rightarrow> page \<times> pending \<Rightarrow> bool" where
  "conforms t n c =
     (n \<le> length (effects (fst c)) \<and> list_all (usesType t) (drop n (effects (fst c))) \<and>
      jobType t (snd c))"

text \<open>
  The platform calls a later page has made beyond those of an earlier one, and the type
  and quality of the encoder calls among them.
\<close>

definition added :: "page \<Rightarrow> page \<Rightarrow> effect list" where
  "added p p' = drop (length (effects p)) (effects p')"

fun encoderCall :: "effect \<Rightarrow> (string \<times> number) list" where
  "encoderCall (ToBlob t q) = [(t, q)]"
| "encoderCall (ToDataURL t q) = [(t, q)]"
| "encoderCall x = []"

definition encoderCalls :: "effect list \<Rightarrow> (string \<times> number) list" where
  "encoderCalls xs = concat (map encoderCall xs)"

text \<open>
  The two guards of the click handler passed, and the test that decides between drawing
  at once and loading the auxiliary image.
\<close>

definition ready :: "page \<Rightarrow> bool" where
  "ready p =
     ((currentFile p \<noteq> None \<or> src (previewImg p) \<noteq> []) \<and>
      orElse (naturalWidth (previewImg p)) (naturalWidth (imgElement p)) \<noteq> 0 \<and>
      orElse (naturalHeight (previewImg p)) (naturalHeight (imgElement p)) \<noteq> 0)"

definition previewReady :: "page \<Rightarrow> bool" where
  "previewReady p = (complete (previewImg p) \<and> naturalWidth (previewImg p) \<noteq> 0)"

text \<open>
  What the click handler computes from a page before it draws: the target size, the
  variables its callbacks capture, the page with the canvas resized and cleared, and the
  source of the auxiliary image.
\<close>

definition targetOf :: "page \<Rightarrow> nat \<times> nat" where
  "targetOf p =
     targetSize (requestedWidthOf (widthInput p))
       (orElse (naturalWidth (previewImg p)) (naturalWidth (imgElement p)))
       (orElse (naturalHeight (previewImg p)) (naturalHeight (imgElement p)))"

definition jobOf :: "page \<Rightarrow> job" where
  "jobOf p = \<lparr>outType = outTypeOf (formatSelect p), quality = qualityOf (qualityInput p)\<rparr>"

definition cleared :: "page \<Rightarrow> page" where
  "cleared p =
     run_effect (ClearRect (fst (targetOf p)) (snd (targetOf p)))
       (p\<lparr>canvasWidth := fst (targetOf p), canvasHeight := snd (targetOf p)\<rparr>)"

definition tempSrc :: "platform \<Rightarrow> page \<Rightarrow> string" where
  "tempSrc pf p =
     (if src (previewImg p) \<noteq> [] then src (previewImg p)
      else (case currentFile p of Some f \<Rightarrow> createObjectURL pf f | None \<Rightarrow> []))"

subsection \<open>Worked examples\<close>

text \<open>
  A platform with \<open>canvas.toBlob\<close> on which drawing succeeds, and the page after
  an 800 by 600 image \<open>cat.png\<close> has been loaded and decoded, with WebP, quality 80 and
  width 400 chosen.
\<close>

definition plain_platform :: platform where
  "plain_platform =
     \<lparr>drawImageThrows = None, hasToBlob = True,
      dataURLBlob = (\<lambda>t q. Inl ''unsupported''),
      createObjectURL = (\<lambda>f. ''blob:'' @ name f)\<rparr>"

definition cat_page :: page where
  "cat_page =
     initial\<lparr>currentFile := Some \<lparr>name = ''cat.png'', type = ''image/png''\<rparr>,
             previewImg := \<lparr>src = ''data:image/png;base64,AAAA'', complete = True,
                             naturalWidth = 800, naturalHeight = 600\<rparr>,
             formatSelect := ''image/webp'', qualityInput := ''80'', widthInput := ''400''\<rparr>"

text \<open>The same page while the preview is still being decoded.\<close>

definition pending_page :: page where
  "pending_page =
     cat_page\<lparr>previewImg := \<lparr>src = ''data:image/png;base64,AAAA'', complete = False,
                              naturalWidth = 0, naturalHeight = 0\<rparr>\<rparr>"

text \<open>A 22 by 15 image with the width 11 requested, and a page with no format selected.\<close>

definition tie_page :: page where
  "tie_page =
     cat_page\<lparr>previewImg := \<lparr>src = ''data:image/png;base64,AAAA'', complete = True,
                              naturalWidth = 22, naturalHeight = 15\<rparr>,
              widthInput := ''11''\<rparr>"

definition unselected_page :: page where
  "unselected_page = cat_page\<lparr>formatSelect := []\<rparr>"

text \<open>
  A platform without \<open>canvas.toBlob\<close> on which the fallback throws, and the example page
  with a 1000 by 1 image: at the requested width 400 the canvas has no pixels,
  \<open>toDataURL\<close> gives \<open>data:,\<close>, and \<open>dataURLtoBlob\<close> throws on it. The text of the
  exception is the platform's.
\<close>

definition legacy_platform :: platform where
  "legacy_platform =
     \<lparr>drawImageThrows = None, hasToBlob = False,
      dataURLBlob = (\<lambda>t q. Inl ''null is not an object''),
      createObjectURL = (\<lambda>f. ''blob:'' @ name f)\<rparr>"

definition flat_page :: page where
  "flat_page =
     cat_page\<lparr>previewImg := \<lparr>src = ''data:image/png;base64,AAAA'', complete = True,
                              naturalWidth = 1000, naturalHeight = 1\<rparr>\<rparr>"

text \<open>The example page while its preview, of known size, is being loaded again.\<close>

definition reloading_page :: page where
  "reloading_page =
     cat_page\<lparr>previewImg := \<lparr>src = ''data:image/png;base64,AAAA'', complete = False,
                              naturalWidth = 800, naturalHeight = 600\<rparr>\<rparr>"

section \<open>Properties\<close>

lemmas parse_defs = parseInt_def parseDigits_def isWhiteSpace_def isDigit_def digitValue_def

lemmas number_defs = nearest_def rne_div_def number_div_def number_mul_def Math_round_def
  Let_def compute_bitlen

subsection \<open>The numbers of the model are those of the platform\<close>

lemma rne_div_near:
  assumes "0 < b"
  shows "\<bar>2 * (rne_div a b * b - a)\<bar> \<le> b"
proof -
  define f r where "f = a div b" and "r = a mod b"
  have a: "a = f * b + r"
    by (simp add: f_def r_def)
  have r: "0 \<le> r" "r < b"
    using assms by (simp_all add: r_def)
  have v: "rne_div a b =
      (if 2 * r < b then f else if b < 2 * r then f + 1 else if even f then f else f + 1)"
    by (simp add: rne_div_def f_def r_def)
  have 1: "2 * (f * b - a) = - 2 * r" "2 * ((f + 1) * b - a) = 2 * b - 2 * r"
    by (simp_all add: a algebra_simps)
  have "\<bar>2 * (f * b - a)\<bar> \<le> b" if "2 * r \<le> b"
    unfolding 1 using that r by linarith
  moreover have "\<bar>2 * ((f + 1) * b - a)\<bar> \<le> b" if "b \<le> 2 * r"
    unfolding 1 using that r by linarith
  ultimately show ?thesis
    unfolding v by (cases "2 * r < b"; cases "b < 2 * r"; cases "even f") simp_all
qed

lemma div_lower:
  assumes "0 < (b::int)" "n * b \<le> a"
  shows "n \<le> a div b"
proof -
  have "n * b div b \<le> a div b"
    using assms by (intro zdiv_mono1) simp_all
  with assms show ?thesis by simp
qed

lemma div_upper:
  assumes "0 < (b::int)" "a < n * b"
  shows "a div b < n"
proof (rule ccontr)
  assume "\<not> a div b < n"
  then have "n \<le> a div b" by simp
  with assms have "n * b \<le> (a div b) * b"
    by (simp add: mult_right_mono)
  also have "\<dots> \<le> a"
  proof -
    have "a = (a div b) * b + a mod b" by simp
    moreover have "0 \<le> a mod b" using assms by simp
    ultimately show ?thesis by linarith
  qed
  finally show False using assms by simp
qed

lemma rne_div_lower: "0 < b \<Longrightarrow> n * b \<le> a \<Longrightarrow> n \<le> rne_div a b"
  using div_lower [of b n a] unfolding rne_div_def Let_def by auto

lemma rne_div_upper: "0 < b \<Longrightarrow> a < n * b \<Longrightarrow> rne_div a b \<le> n"
  using div_upper [of b a n] unfolding rne_div_def Let_def by auto

lemma pow_test:
  assumes "0 < q"
  shows "(if 0 \<le> j then q * 2 ^ nat j \<le> p else q \<le> p * 2 ^ nat (- j)) \<longleftrightarrow>
         (2::rat) powi j \<le> of_int p / of_int q"
proof (cases "0 \<le> j")
  case True
  have "(2::rat) ^ nat j \<le> of_int p / of_int q \<longleftrightarrow> 2 ^ nat j * of_int q \<le> (of_int p :: rat)"
    using assms by (simp add: pos_le_divide_eq)
  also have "\<dots> \<longleftrightarrow> (of_int (2 ^ nat j * q) :: rat) \<le> of_int p"
    by simp
  also have "\<dots> \<longleftrightarrow> 2 ^ nat j * q \<le> p"
    by (rule of_int_le_iff)
  finally show ?thesis
    using True by (simp add: power_int_def mult.commute)
next
  case False
  have "(1 / 2 :: rat) ^ nat (- j) \<le> of_int p / of_int q \<longleftrightarrow>
        of_int q \<le> (of_int p :: rat) * 2 ^ nat (- j)"
    using assms by (simp add: power_divide field_simps)
  also have "\<dots> \<longleftrightarrow> (of_int q :: rat) \<le> of_int (p * 2 ^ nat (- j))"
    by simp
  also have "\<dots> \<longleftrightarrow> q \<le> p * 2 ^ nat (- j)"
    by (rule of_int_le_iff)
  finally show ?thesis
    using False by (simp add: power_int_def)
qed

lemma bitlen_powi:
  assumes "0 < p"
  shows "(2::rat) powi (bitlen p - 1) \<le> of_int p \<and> (of_int p :: rat) < 2 powi bitlen p"
proof -
  from bitlen_bounds [OF assms] have a: "2 ^ nat (bitlen p - 1) \<le> p" and b: "p < 2 ^ nat (bitlen p)"
    by simp_all
  have n: "0 \<le> bitlen p - 1"
    using assms by (simp add: bitlen_alt_def)
  from a have "(of_int (2 ^ nat (bitlen p - 1)) :: rat) \<le> of_int p"
    by (simp only: of_int_le_iff)
  moreover from b have "(of_int p :: rat) < of_int (2 ^ nat (bitlen p))"
    by (simp only: of_int_less_iff)
  ultimately show ?thesis
    using n by (simp add: power_int_def)
qed

lemma ratio_powi:
  assumes "0 < p" "0 < q"
  shows "(2::rat) powi (bitlen p - bitlen q - 1) \<le> of_int p / of_int q \<and>
         (of_int p / of_int q :: rat) < 2 powi (bitlen p - bitlen q + 1)"
proof -
  let ?P = "of_int p :: rat" and ?Q = "of_int q :: rat"
  from bitlen_powi [OF assms(1)] bitlen_powi [OF assms(2)]
  have p: "2 powi (bitlen p - 1) \<le> ?P" "?P < 2 powi bitlen p"
    and q: "2 powi (bitlen q - 1) \<le> ?Q" "?Q < 2 powi bitlen q"
    by simp_all
  have Q: "0 < ?Q" using assms by simp
  have "2 powi (bitlen p - bitlen q - 1) = (2::rat) powi (bitlen p - 1) / 2 powi bitlen q"
    by (simp add: power_int_diff)
  also have "\<dots> \<le> ?P / 2 powi bitlen q"
    using p(1) by (simp add: divide_right_mono)
  also have "\<dots> \<le> ?P / ?Q"
    using q(2) Q assms by (simp add: frac_le)
  finally have lo: "2 powi (bitlen p - bitlen q - 1) \<le> ?P / ?Q" .
  have "?P / ?Q < 2 powi bitlen p / ?Q"
    using p(2) Q by (simp add: divide_strict_right_mono)
  also have "\<dots> \<le> 2 powi bitlen p / 2 powi (bitlen q - 1)"
    using q(1) by (simp add: frac_le)
  also have "\<dots> = 2 powi (bitlen p - bitlen q + 1)"
    by (simp add: power_int_diff power_int_add)
  finally show ?thesis using lo by simp
qed


lemma rne_div_tie:
  assumes "0 < b" and "\<bar>2 * (rne_div a b * b - a)\<bar> = b"
  shows "even (rne_div a b)"
proof -
  define f r where "f = a div b" and "r = a mod b"
  have a: "a = f * b + r"
    by (simp add: f_def r_def)
  have r: "0 \<le> r" "r < b"
    using assms by (simp_all add: r_def)
  have v: "rne_div a b =
      (if 2 * r < b then f else if b < 2 * r then f + 1 else if even f then f else f + 1)"
    by (simp add: rne_div_def f_def r_def)
  have 1: "2 * (f * b - a) = - 2 * r" "2 * ((f + 1) * b - a) = 2 * b - 2 * r"
    by (simp_all add: a algebra_simps)
  have "\<bar>2 * (f * b - a)\<bar> \<noteq> b" if "2 * r < b"
    unfolding 1 using that r by linarith
  moreover have "\<bar>2 * ((f + 1) * b - a)\<bar> \<noteq> b" if "b < 2 * r"
    unfolding 1 using that r by linarith
  ultimately show ?thesis
    using assms(2) unfolding v by (cases "2 * r < b"; cases "b < 2 * r"; cases "even f") simp_all
qed

text \<open>
  For a positive fraction, \<open>nearest\<close> gives a significand of 53 bits (or the power
  of two that opens the next binade) whose value is within half a unit in the last place
  of the fraction, and an even significand when the fraction lies half way between two
  neighbours.
\<close>

lemma nearest_correct:
  assumes "0 < p" and "0 < q" and "nearest p q = Dbl m e"
  shows "2 ^ 52 \<le> m \<and> m \<le> 2 ^ 53 \<and>
         \<bar>of_int m * 2 powi e - of_int p / of_int q\<bar> \<le> (2 powi e / 2 :: rat) \<and>
         (\<bar>of_int m * 2 powi e - of_int p / of_int q\<bar> = (2 powi e / 2 :: rat) \<longrightarrow> even m)"
proof -
  let ?x = "of_int p / of_int q :: rat"
  define k where "k = bitlen p - bitlen q"
  define t where "t = (if 0 \<le> k then q * 2 ^ nat k \<le> p else q \<le> p * 2 ^ nat (- k))"
  define ex where "ex = (if t then k else k - 1)"
  define e' where "e' = ex - 52"
  define a where "a = (if 0 \<le> e' then p else p * 2 ^ nat (- e'))"
  define b where "b = (if 0 \<le> e' then q * 2 ^ nat e' else q)"
  have "nearest p q = Dbl (rne_div a b) e'"
    unfolding nearest_def Let_def k_def [symmetric] t_def [symmetric] ex_def [symmetric]
      e'_def [symmetric]
    using assms(1,2) by (simp add: a_def b_def)
  with assms(3) have e: "e = ex - 52" and m: "m = rne_div a b" and e': "e' = e"
    by (simp_all add: e'_def)
  have t: "t \<longleftrightarrow> 2 powi k \<le> ?x"
    unfolding t_def by (rule pow_test [OF assms(2)])
  from ratio_powi [OF assms(1,2)] have lo: "2 powi (k - 1) \<le> ?x" and hi: "?x < 2 powi (k + 1)"
    by (simp_all add: k_def)
  have ex: "2 powi ex \<le> ?x" "?x < 2 powi (ex + 1)"
    using t lo hi by (auto simp add: ex_def)
  have b: "0 < b"
    using assms(2) by (simp add: b_def)
  have ab: "(of_int a / of_int b :: rat) = ?x * 2 powi (- e)"
    by (simp add: a_def b_def e' power_int_def power_divide field_simps)
  have "2 powi 52 = (2::rat) powi ex * 2 powi (- e)"
    by (simp add: e power_int_add [symmetric])
  also have "\<dots> \<le> ?x * 2 powi (- e)"
    using ex(1) by (intro mult_right_mono) simp_all
  finally have "(2::rat) ^ 52 \<le> of_int a / of_int b"
    by (simp add: ab)
  then have "(of_int (2 ^ 52 * b) :: rat) \<le> of_int a"
    using b by (simp add: pos_le_divide_eq)
  then have l: "2 ^ 52 * b \<le> a"
    by (simp only: of_int_le_iff)
  have "?x * 2 powi (- e) < (2::rat) powi (ex + 1) * 2 powi (- e)"
    using ex(2) by (intro mult_strict_right_mono) simp_all
  also have "\<dots> = 2 powi 53"
    by (simp add: e power_int_add [symmetric])
  finally have "of_int a / of_int b < (2::rat) ^ 53"
    by (simp add: ab)
  then have "(of_int a :: rat) < of_int (2 ^ 53 * b)"
    using b by (simp add: pos_divide_less_eq)
  then have u: "a < 2 ^ 53 * b"
    by (simp only: of_int_less_iff)
  from rne_div_lower [OF b l] rne_div_upper [OF b u] have 1: "2 ^ 52 \<le> m" "m \<le> 2 ^ 53"
    by (simp_all add: m)
  have d: "of_int m * 2 powi e - ?x = (of_int (2 * (m * b - a)) :: rat) * (2 powi e / (2 * of_int b))"
  proof -
    have x: "?x = of_int a / of_int b * 2 powi e"
      by (simp add: ab power_int_minus)
    show ?thesis
      unfolding x using b by (simp add: field_simps)
  qed
  have c: "0 < (2 powi e / (2 * of_int b) :: rat)"
    using b by simp
  have am: "\<bar>A * (2 powi e / (2 * of_int b))\<bar> = \<bar>A\<bar> * (2 powi e / (2 * of_int b))"
    for A :: rat
    by (simp only: abs_mult abs_of_pos [OF c])
  have abs: "\<bar>of_int m * 2 powi e - ?x\<bar> =
      (of_int \<bar>2 * (m * b - a)\<bar> :: rat) * (2 powi e / (2 * of_int b))"
    unfolding d am by (simp only: of_int_abs)
  have w: "(2 powi e / 2 :: rat) = of_int b * (2 powi e / (2 * of_int b))"
    using b by simp
  from rne_div_near [OF b, of a] have "(of_int \<bar>2 * (m * b - a)\<bar> :: rat) \<le> of_int b"
    unfolding m by (simp only: of_int_le_iff)
  then have 2: "\<bar>of_int m * 2 powi e - ?x\<bar> \<le> (2 powi e / 2 :: rat)"
    unfolding abs w using c by (simp only: mult_le_cancel_right_pos)
  have 3: "even m" if "\<bar>of_int m * 2 powi e - ?x\<bar> = (2 powi e / 2 :: rat)"
  proof -
    from c have c0: "(2 powi e / (2 * of_int b) :: rat) \<noteq> 0"
      by (rule less_imp_neq [THEN not_sym])
    from that have "(of_int \<bar>2 * (m * b - a)\<bar> :: rat) * (2 powi e / (2 * of_int b))
        = of_int b * (2 powi e / (2 * of_int b))"
      unfolding abs w [symmetric] .
    then have "(of_int \<bar>2 * (m * b - a)\<bar> :: rat) = of_int b"
      by (simp only: mult_right_cancel [OF c0])
    then have "\<bar>2 * (m * b - a)\<bar> = b"
      by (simp only: of_int_eq_iff)
    with rne_div_tie [OF b, of a] show ?thesis
      by (simp add: m)
  qed
  from 1 2 3 show ?thesis by blast
qed

text \<open>\<open>Math_round\<close> is the floor of the argument plus one half.\<close>

lemma Math_round_floor:
  "Math_round (Dbl m e) = \<lfloor>(of_int m * 2 powi e + 1 / 2 :: rat)\<rfloor>"
proof (cases "0 \<le> e")
  case True
  then have "(of_int m * 2 powi e + 1 / 2 :: rat) = of_int (m * 2 ^ nat e) + 1 / 2"
    by (simp add: power_int_def)
  also have "\<lfloor>\<dots>\<rfloor> = m * 2 ^ nat e"
    by (rule floor_unique) simp_all
  finally show ?thesis
    using True by (simp add: Math_round_def)
next
  case False
  then have n: "nat (1 - e) = Suc (nat (- e))"
    by simp
  from False have "(of_int m * 2 powi e + 1 / 2 :: rat)
      = of_int (2 * m + 2 ^ nat (- e)) / of_int (2 ^ nat (1 - e))"
    by (simp add: n power_int_def power_divide field_simps)
  also have "\<lfloor>\<dots>\<rfloor> = (2 * m + 2 ^ nat (- e)) div 2 ^ nat (1 - e)"
    by (rule floor_divide_of_int_eq)
  finally show ?thesis
    using False by (simp add: Math_round_def)
qed

text \<open>
  One tenth is \<open>0x1.999999999999ap-4\<close> in binary64, and \<open>15 / 22\<close> is
  \<open>0x1.5d1745d1745d1p-1\<close>.
\<close>

lemma nearest_one_tenth: "number_div 1 10 = Dbl 0x1999999999999a (- 56)"
  by (simp add: number_defs)

lemma nearest_15_22: "number_div 15 22 = Dbl 0x15d1745d1745d1 (- 53)"
  by (simp add: number_defs)

text \<open>
  Seven and a half is \<open>8444249301319680 * 2 ^ - 50\<close>. The product of the number above
  and 11 is \<open>67553994410557435 * 2 ^ - 53\<close>, five units below seven and a half and
  three above the binary64 value before it, to which it is rounded.
\<close>

lemma tie_product: "number_mul (number_div 15 22) 11 = Dbl 8444249301319679 (- 50)"
  by (simp add: number_defs)

lemma seven_and_a_half: "number_div 15 2 = Dbl 8444249301319680 (- 50)"
  by (simp add: number_defs)

subsection \<open>Target size\<close>

lemma targetSize_width:
  "fst (targetSize rw naturalW naturalH) =
     (case rw of
        None \<Rightarrow> naturalW
      | Some w \<Rightarrow> if 0 < w \<and> w < int naturalW then nat w else naturalW)"
  by (simp add: targetSize_def split: option.splits)

lemma targetSize_natural:
  "rw = None \<or> (\<exists>w. rw = Some w \<and> (w \<le> 0 \<or> int naturalW \<le> w)) \<Longrightarrow>
   targetSize rw naturalW naturalH = (naturalW, naturalH)"
  by (auto simp add: targetSize_def split: option.splits)

text \<open>
  C1: the target height of a downscale is round (natural height times target width over
  natural width). For a 22 by 15 image and the requested width 11 the exact quotient is
  7.5, which rounds to 8 under round half up and under round half to even alike; the
  expression of the claim evaluated in binary64, \<open>Math.round(15 * 11 / 22)\<close>, is 8
  as well. The script divides first and multiplies after: \<open>15 / 22\<close> is rounded
  down, the product is just below 7.5, and the script's target height, the height the
  click handler gives the canvas, is 7.
\<close>

theorem targetSize_half_pixel_tie:
  "targetSize (requestedWidthOf ''11'') 22 15 = (11, 7) \<and>
   canvasWidth (fst (convert_click plain_platform tie_page)) = 11 \<and>
   canvasHeight (fst (convert_click plain_platform tie_page)) = 7 \<and>
   spec_targetHeight 15 11 22 = 8 \<and> rne_div (15 * 11) 22 = 8 \<and>
   Math_round (number_div (15 * 11) 22) = 8"
  by (simp add: convert_click_def tie_page_def cat_page_def initial_def plain_platform_def
      orElse_def outTypeOf_def qualityOf_def requestedWidthOf_def parse_defs targetSize_def
      number_defs run_effect_def showMessage_def drawImage_def blobQuality_def
      spec_targetHeight_def round_def)

text \<open>
  C10: there are natural dimensions and a requested width, positive and below the natural
  width, whose target height is 0: a 1000 by 1 image at the requested width 400.
\<close>

theorem targetSize_zero_height:
  "\<exists>naturalW naturalH w. 0 < w \<and> w < int naturalW \<and> 0 < naturalH \<and>
     requestedWidthOf ''400'' = Some w \<and>
     targetSize (Some w) naturalW naturalH = (nat w, 0)"
  apply (rule exI [of _ 1000], rule exI [of _ 1], rule exI [of _ 400])
  apply (simp add: targetSize_def requestedWidthOf_def parse_defs number_defs)
  done

subsection \<open>Projections of the two basic updates\<close>

lemma run_effect_fields [simp]:
  "currentFile (run_effect x p) = currentFile p"
  "previewImg (run_effect x p) = previewImg p"
  "imgElement (run_effect x p) = imgElement p"
  "canvasWidth (run_effect x p) = canvasWidth p"
  "canvasHeight (run_effect x p) = canvasHeight p"
  "message (run_effect x p) = message p"
  "isError (run_effect x p) = isError p"
  "effects (run_effect x p) = effects p @ [x]"
  by (simp_all add: run_effect_def)

lemma showMessage_fields [simp]:
  "currentFile (showMessage m e p) = currentFile p"
  "previewImg (showMessage m e p) = previewImg p"
  "imgElement (showMessage m e p) = imgElement p"
  "canvasWidth (showMessage m e p) = canvasWidth p"
  "canvasHeight (showMessage m e p) = canvasHeight p"
  "message (showMessage m e p) = m"
  "isError (showMessage m e p) = e"
  "effects (showMessage m e p) = effects p"
  by (simp_all add: showMessage_def)

subsection \<open>The platform calls of a conversion\<close>

lemma qualityOf_range: "1 \<le> qualityOf v \<and> qualityOf v \<le> 100"
  by (simp add: qualityOf_def Let_def split: option.splits)

lemma blobQuality_qualityOf: "blobQuality (qualityOf v) = number_div (qualityOf v) 100"
  using qualityOf_range [of v] by (simp add: blobQuality_def)

lemma triggerDownload_effects:
  "effects (triggerDownload j b p) = effects p @ [Download (outName (currentFile p) (outType j)) b]"
  by (simp add: triggerDownload_def Let_def)

lemma drawImage_effects:
  assumes "drawImageThrows pf = None"
  shows "effects (fst (drawImage pf j p)) =
           effects p @ DrawImage (canvasWidth p) (canvasHeight p) #
             (if hasToBlob pf then [ToBlob (outType j) (blobQuality (quality j))]
              else ToDataURL (outType j) (blobQuality (quality j)) #
                (case dataURLBlob pf (outType j) (blobQuality (quality j)) of
                   Inl err \<Rightarrow> []
                 | Inr b \<Rightarrow> [Download (outName (currentFile p) (outType j)) b]))"
  using assms by (simp add: drawImage_def Let_def triggerDownload_effects split: sum.splits)

lemma drawImage_pending:
  assumes "drawImageThrows pf = None"
  shows "snd (drawImage pf j p) = (if hasToBlob pf then AwaitBlob j else Settled)"
  using assms by (simp add: drawImage_def Let_def split: sum.splits)

lemma drawImage_currentFile: "currentFile (fst (drawImage pf j p)) = currentFile p"
  by (simp add: drawImage_def Let_def triggerDownload_def split: option.splits sum.splits)

lemma deliver_blob:
  "snd c = AwaitBlob j \<Longrightarrow> deliver pf (BlobReady b) c = (toBlob_callback j b (fst c), Settled)"
  by (cases c) simp

lemma cleared_fields [simp]:
  "currentFile (cleared p) = currentFile p"
  "previewImg (cleared p) = previewImg p"
  "canvasWidth (cleared p) = fst (targetOf p)"
  "canvasHeight (cleared p) = snd (targetOf p)"
  "effects (cleared p) = effects p @ [ClearRect (fst (targetOf p)) (snd (targetOf p))]"
  by (simp_all add: cleared_def)

lemma convert_click_draw:
  assumes "ready p" and "previewReady p"
  shows "convert_click pf p =
           (showMessage (Plain ''Processing...'') False (fst (drawImage pf (jobOf p) (cleared p))),
            snd (drawImage pf (jobOf p) (cleared p)))"
  using assms
  by (auto simp add: convert_click_def Let_def case_prod_beta ready_def previewReady_def
      cleared_def targetOf_def jobOf_def)

lemma convert_click_temp:
  assumes "ready p" and "\<not> previewReady p"
  shows "convert_click pf p =
           (showMessage (Plain ''Processing...'') False
              (run_effect (LoadTemp (tempSrc pf p)) (cleared p)),
            AwaitTemp (jobOf p) (tempSrc pf p))"
  using assms
  by (auto simp add: convert_click_def Let_def case_prod_beta ready_def previewReady_def
      cleared_def targetOf_def jobOf_def tempSrc_def)

lemma added_append [simp]: "effects p' = effects p @ xs \<Longrightarrow> added p p' = xs"
  by (simp add: added_def)

text \<open>
  A conversion of a ready page whose preview is complete draws and encodes in the click
  handler; on a platform without \<open>toBlob\<close> it also downloads there.
\<close>

lemma convert_click_draw_added:
  assumes "ready p" and "previewReady p" and "drawImageThrows pf = None"
  shows "added p (fst (convert_click pf p)) =
           ClearRect (fst (targetOf p)) (snd (targetOf p)) #
           DrawImage (fst (targetOf p)) (snd (targetOf p)) #
           (if hasToBlob pf
            then [ToBlob (outTypeOf (formatSelect p))
                    (number_div (qualityOf (qualityInput p)) 100)]
            else ToDataURL (outTypeOf (formatSelect p))
                   (number_div (qualityOf (qualityInput p)) 100) #
                 (case dataURLBlob pf (outTypeOf (formatSelect p))
                         (number_div (qualityOf (qualityInput p)) 100) of
                    Inl err \<Rightarrow> []
                  | Inr b \<Rightarrow> [Download (outName (currentFile p) (outTypeOf (formatSelect p))) b]))"
  by (rule added_append)
     (simp add: convert_click_draw [OF assms(1,2)] drawImage_effects [OF assms(3)] jobOf_def
        blobQuality_qualityOf split: sum.splits)

text \<open>
  A conversion of a ready page whose preview is not complete loads the auxiliary image,
  and draws and encodes when that image has loaded.
\<close>

lemma convert_click_temp_added:
  assumes "ready p" and "\<not> previewReady p" and "drawImageThrows pf = None"
  shows "added p (fst (run pf [TempLoaded] (convert_click pf p))) =
           ClearRect (fst (targetOf p)) (snd (targetOf p)) #
           LoadTemp (tempSrc pf p) #
           DrawImage (fst (targetOf p)) (snd (targetOf p)) #
           (if hasToBlob pf
            then [ToBlob (outTypeOf (formatSelect p))
                    (number_div (qualityOf (qualityInput p)) 100)]
            else ToDataURL (outTypeOf (formatSelect p))
                   (number_div (qualityOf (qualityInput p)) 100) #
                 (case dataURLBlob pf (outTypeOf (formatSelect p))
                         (number_div (qualityOf (qualityInput p)) 100) of
                    Inl err \<Rightarrow> []
                  | Inr b \<Rightarrow> [Download (outName (currentFile p) (outTypeOf (formatSelect p))) b]))"
  by (rule added_append)
     (simp add: convert_click_temp [OF assms(1,2)] temp_onload_def
        drawImage_effects [OF assms(3)] jobOf_def blobQuality_qualityOf split: sum.splits)

text \<open>When the encoder then hands a blob to the callback, the blob is downloaded.\<close>

lemma convert_click_blob_added:
  assumes "ready p" and "previewReady p" and "drawImageThrows pf = None" and "hasToBlob pf"
  shows "added p (fst (run pf [BlobReady (Some b)] (convert_click pf p))) =
           [ClearRect (fst (targetOf p)) (snd (targetOf p)),
            DrawImage (fst (targetOf p)) (snd (targetOf p)),
            ToBlob (outTypeOf (formatSelect p)) (number_div (qualityOf (qualityInput p)) 100),
            Download (outName (currentFile p) (outTypeOf (formatSelect p))) b]"
proof -
  have w: "snd (convert_click pf p) = AwaitBlob (jobOf p)"
    by (simp add: convert_click_draw [OF assms(1,2)] drawImage_pending [OF assms(3)] assms(4))
  have r: "run pf [BlobReady (Some b)] (convert_click pf p) =
      (toBlob_callback (jobOf p) (Some b) (fst (convert_click pf p)), Settled)"
    by (simp only: run.simps deliver_blob [OF w])
  show ?thesis
    unfolding r
    by (rule added_append)
       (simp add: convert_click_draw [OF assms(1,2)] drawImage_effects [OF assms(3)] assms(4)
          jobOf_def blobQuality_qualityOf toBlob_callback_def triggerDownload_effects
          drawImage_currentFile)
qed

lemma convert_click_temp_blob_added:
  assumes "ready p" and "\<not> previewReady p" and "drawImageThrows pf = None" and "hasToBlob pf"
  shows "added p (fst (run pf [TempLoaded, BlobReady (Some b)] (convert_click pf p))) =
           [ClearRect (fst (targetOf p)) (snd (targetOf p)),
            LoadTemp (tempSrc pf p),
            DrawImage (fst (targetOf p)) (snd (targetOf p)),
            ToBlob (outTypeOf (formatSelect p)) (number_div (qualityOf (qualityInput p)) 100),
            Download (outName (currentFile p) (outTypeOf (formatSelect p))) b]"
proof -
  let ?c = "deliver pf TempLoaded (convert_click pf p)"
  have c: "?c = drawImage pf (jobOf p)
      (showMessage (Plain ''Processing...'') False
         (run_effect (LoadTemp (tempSrc pf p)) (cleared p))
       \<lparr>previewImg := previewImg p\<lparr>src := tempSrc pf p\<rparr>\<rparr>)"
    by (simp add: convert_click_temp [OF assms(1,2)] temp_onload_def)
  have w: "snd ?c = AwaitBlob (jobOf p)"
    by (simp add: c drawImage_pending [OF assms(3)] assms(4))
  have r: "run pf [TempLoaded, BlobReady (Some b)] (convert_click pf p) =
      (toBlob_callback (jobOf p) (Some b) (fst ?c), Settled)"
    by (simp only: run.simps deliver_blob [OF w])
  show ?thesis
    unfolding r
    by (rule added_append)
       (simp add: c drawImage_effects [OF assms(3)] assms(4) jobOf_def blobQuality_qualityOf
          toBlob_callback_def triggerDownload_effects drawImage_currentFile)
qed

subsection \<open>Quality\<close>

text \<open>
  C2, as stated, has a quality below 1 normalised to 1. The input \<open>0\<close> is numeric and
  below 1, and its normalised quality is 90.
\<close>

theorem qualityOf_zero_counterexample:
  "parseInt ''0'' = Some 0 \<and> qualityOf ''0'' = 90 \<and> qualityOf ''0'' \<noteq> 1"
  by (simp add: qualityOf_def parse_defs)

text \<open>
  C2, amended: the normalised quality is the parsed integer when it lies between 1 and
  100, it is 100 when the parsed integer is above 100, and it is 90 when the parsed
  integer is below 1 or when nothing numeric can be parsed. The encoder receives the
  normalised quality divided by 100: a conversion that gets to draw makes exactly one
  encoder call, \<open>toBlob\<close> or \<open>toDataURL\<close>, in the click handler when the preview is
  complete and after the load of the auxiliary image otherwise, and the quality argument
  of that call is the normalised quality of the quality control divided by 100.
\<close>

theorem qualityOf_normalised:
  "(parseInt v = Some n \<and> 1 \<le> n \<and> n \<le> 100 \<longrightarrow> qualityOf v = n) \<and>
   (parseInt v = Some n \<and> 100 < n \<longrightarrow> qualityOf v = 100) \<and>
   (parseInt v = Some n \<and> n < 1 \<longrightarrow> qualityOf v = 90) \<and>
   (parseInt v = None \<longrightarrow> qualityOf v = 90) \<and>
   blobQuality (qualityOf v) = number_div (qualityOf v) 100 \<and>
   (ready p \<and> previewReady p \<and> drawImageThrows pf = None \<longrightarrow>
      map snd (encoderCalls (added p (fst (convert_click pf p)))) =
        [number_div (qualityOf (qualityInput p)) 100]) \<and>
   (ready p \<and> \<not> previewReady p \<and> drawImageThrows pf = None \<longrightarrow>
      map snd (encoderCalls (added p (fst (run pf [TempLoaded] (convert_click pf p))))) =
        [number_div (qualityOf (qualityInput p)) 100])"
proof -
  have 1: "(parseInt v = Some n \<and> 1 \<le> n \<and> n \<le> 100 \<longrightarrow> qualityOf v = n) \<and>
     (parseInt v = Some n \<and> 100 < n \<longrightarrow> qualityOf v = 100) \<and>
     (parseInt v = Some n \<and> n < 1 \<longrightarrow> qualityOf v = 90) \<and>
     (parseInt v = None \<longrightarrow> qualityOf v = 90)"
    by (auto simp add: qualityOf_def Let_def)
  have 2: "blobQuality (qualityOf v) = number_div (qualityOf v) 100"
    by (rule blobQuality_qualityOf)
  have 3: "map snd (encoderCalls (added p (fst (convert_click pf p)))) =
        [number_div (qualityOf (qualityInput p)) 100]"
    if h: "ready p \<and> previewReady p \<and> drawImageThrows pf = None"
  proof -
    from h have a: "ready p" "previewReady p" "drawImageThrows pf = None"
      by simp_all
    show ?thesis
      unfolding convert_click_draw_added [OF a]
      by (auto simp add: encoderCalls_def split: sum.splits)
  qed
  have 4: "map snd (encoderCalls (added p (fst (run pf [TempLoaded] (convert_click pf p))))) =
        [number_div (qualityOf (qualityInput p)) 100]"
    if h: "ready p \<and> \<not> previewReady p \<and> drawImageThrows pf = None"
  proof -
    from h have a: "ready p" "\<not> previewReady p" "drawImageThrows pf = None"
      by simp_all
    show ?thesis
      unfolding convert_click_temp_added [OF a]
      by (auto simp add: encoderCalls_def split: sum.splits)
  qed
  from 1 2 3 4 show ?thesis by blast
qed

theorem qualityOf_normalised_witness:
  "qualityOf ''80'' = 80 \<and> qualityOf ''250'' = 100 \<and> qualityOf ''-3'' = 90 \<and>
   qualityOf ''high'' = 90 \<and>
   map snd (encoderCalls (added cat_page (fst (convert_click plain_platform cat_page)))) =
     [Dbl 7205759403792794 (- 53)] \<and>
   map snd (encoderCalls (added reloading_page
      (fst (run plain_platform [TempLoaded] (convert_click plain_platform reloading_page))))) =
     [Dbl 7205759403792794 (- 53)]"
proof -
  have a: "parseInt ''80'' = Some 80 \<and> 1 \<le> (80::int) \<and> (80::int) \<le> 100"
    by (simp add: parse_defs)
  have b: "parseInt ''250'' = Some 250 \<and> (100::int) < 250"
    by (simp add: parse_defs)
  have c: "parseInt ''-3'' = Some (- 3) \<and> (- 3 :: int) < 1"
    by (simp add: parse_defs)
  have d: "parseInt ''high'' = None"
    by (simp add: parse_defs)
  have e: "number_div 80 100 = Dbl 7205759403792794 (- 53)"
    by (simp add: number_defs)
  have f: "ready cat_page \<and> previewReady cat_page \<and> drawImageThrows plain_platform = None"
    by (simp add: ready_def previewReady_def cat_page_def initial_def plain_platform_def
        orElse_def)
  have g: "ready reloading_page \<and> \<not> previewReady reloading_page \<and>
      drawImageThrows plain_platform = None"
    by (simp add: ready_def previewReady_def reloading_page_def cat_page_def initial_def
        plain_platform_def orElse_def)
  have q: "qualityInput cat_page = ''80''" "qualityInput reloading_page = ''80''"
    by (simp_all add: reloading_page_def cat_page_def)
  note t = qualityOf_normalised [where v = "''80''" and n = 80 and p = cat_page
      and pf = plain_platform]
  note u = qualityOf_normalised [where v = "''80''" and n = 80 and p = reloading_page
      and pf = plain_platform]
  have 1: "qualityOf ''80'' = 80"
    by (rule t [THEN conjunct1, THEN mp, OF a])
  have 2: "qualityOf ''250'' = 100"
    by (rule qualityOf_normalised [where v = "''250''" and n = 250, THEN conjunct2,
          THEN conjunct1, THEN mp, OF b])
  have 3: "qualityOf ''-3'' = 90"
    by (rule qualityOf_normalised [where v = "''-3''" and n = "- 3", THEN conjunct2,
          THEN conjunct2, THEN conjunct1, THEN mp, OF c])
  have 4: "qualityOf ''high'' = 90"
    by (rule qualityOf_normalised [where v = "''high''", THEN conjunct2, THEN conjunct2,
          THEN conjunct2, THEN conjunct1, THEN mp, OF d])
  note rest = t [THEN conjunct2, THEN conjunct2, THEN conjunct2, THEN conjunct2,
      THEN conjunct2]
  note rest' = u [THEN conjunct2, THEN conjunct2, THEN conjunct2, THEN conjunct2,
      THEN conjunct2]
  from rest [THEN conjunct1, THEN mp, OF f]
  have 5: "map snd (encoderCalls (added cat_page
      (fst (convert_click plain_platform cat_page)))) = [Dbl 7205759403792794 (- 53)]"
    by (simp only: q 1 e)
  from rest' [THEN conjunct2, THEN mp, OF g]
  have 6: "map snd (encoderCalls (added reloading_page
      (fst (run plain_platform [TempLoaded] (convert_click plain_platform reloading_page)))))
      = [Dbl 7205759403792794 (- 53)]"
    by (simp only: q 1 e)
  show ?thesis
    by (intro conjI) (rule 1 2 3 4 5 6)+
qed

subsection \<open>Loading\<close>

text \<open>
  C3, as stated, has the current file left untouched when the read fails. On the example
  page, whose current file is \<open>cat.png\<close>, a load of \<open>new.png\<close> whose read fails
  leaves \<open>new.png\<close> as the current file.
\<close>

theorem load_read_failure_counterexample:
  "currentFile (load \<lparr>name = ''new.png'', type = ''image/png''\<rparr> ReadFailed cat_page)
     = Some \<lparr>name = ''new.png'', type = ''image/png''\<rparr> \<and>
   currentFile cat_page = Some \<lparr>name = ''cat.png'', type = ''image/png''\<rparr> \<and>
   currentFile (load \<lparr>name = ''new.png'', type = ''image/png''\<rparr> ReadFailed cat_page)
     \<noteq> currentFile cat_page"
  by (simp add: load_def loadFile_def startsWith_def reader_onerror_def cat_page_def
      initial_def)

text \<open>
  C3, amended: a file whose declared type does not start with \<open>image/\<close> is refused
  with nothing but the status line changed, so the current file and the preview are
  untouched. When the read of an accepted file fails, the preview is untouched and the
  failure is reported, but the current file is already the file whose read failed.
\<close>

theorem load_failure_state:
  "(\<not> startsWith (type f) ''image/'' \<longrightarrow>
      load f r p = showMessage (Plain ''Please upload a valid image file.'') True p \<and>
      currentFile (load f r p) = currentFile p \<and>
      previewImg (load f r p) = previewImg p) \<and>
   (startsWith (type f) ''image/'' \<longrightarrow>
      previewImg (load f ReadFailed p) = previewImg p \<and>
      currentFile (load f ReadFailed p) = Some f \<and>
      message (load f ReadFailed p) = Plain ''Failed to read file.'' \<and>
      isError (load f ReadFailed p))"
  by (simp add: load_def loadFile_def reader_onerror_def)

theorem load_failure_state_witness:
  "currentFile (load \<lparr>name = ''notes.txt'', type = ''text/plain''\<rparr> (ReadOk ''data:'') cat_page)
     = currentFile cat_page \<and>
   previewImg (load \<lparr>name = ''notes.txt'', type = ''text/plain''\<rparr> (ReadOk ''data:'') cat_page)
     = previewImg cat_page \<and>
   previewImg (load \<lparr>name = ''new.png'', type = ''image/png''\<rparr> ReadFailed cat_page)
     = previewImg cat_page"
proof -
  have a: "\<not> startsWith (type \<lparr>name = ''notes.txt'', type = ''text/plain''\<rparr>) ''image/''"
    by (simp add: startsWith_def)
  have b: "startsWith (type \<lparr>name = ''new.png'', type = ''image/png''\<rparr>) ''image/''"
    by (simp add: startsWith_def)
  from a b
    load_failure_state [of "\<lparr>name = ''notes.txt'', type = ''text/plain''\<rparr>"
      "ReadOk ''data:''" cat_page]
    load_failure_state [of "\<lparr>name = ''new.png'', type = ''image/png''\<rparr>" _ cat_page]
  show ?thesis by blast
qed

subsection \<open>The guards of a conversion\<close>

text \<open>
  C9: with no current file and no preview source, a click on convert reports
  \<open>Choose or drop an image first.\<close> as an error and does nothing else: no target size
  is computed into the canvas, no platform call is made, no callback is registered.
\<close>

theorem convert_without_image:
  "currentFile p = None \<and> src (previewImg p) = [] \<Longrightarrow>
   convert_click pf p =
     (p\<lparr>message := Plain ''Choose or drop an image first.'', isError := True\<rparr>, Settled) \<and>
   effects (fst (convert_click pf p)) = effects p \<and>
   canvasWidth (fst (convert_click pf p)) = canvasWidth p \<and>
   canvasHeight (fst (convert_click pf p)) = canvasHeight p"
  by (simp add: convert_click_def showMessage_def)

theorem convert_without_image_witness:
  "convert_click plain_platform initial =
     (initial\<lparr>message := Plain ''Choose or drop an image first.'', isError := True\<rparr>, Settled)"
proof -
  have "currentFile initial = None \<and> src (previewImg initial) = []"
    by (simp add: initial_def)
  from convert_without_image [OF this, of plain_platform] show ?thesis by blast
qed

text \<open>
  C4: a click on convert while a natural dimension is still zero ends at once with an
  error on the status line; the canvas keeps its size, no platform call is made (nothing
  is drawn, encoded or downloaded) and no callback is registered. Whenever a file or a
  preview source is there, that is, whenever a decode can be under way, the error is the
  not-ready report.
\<close>

theorem convert_not_ready:
  assumes "orElse (naturalWidth (previewImg p)) (naturalWidth (imgElement p)) = 0 \<or>
           orElse (naturalHeight (previewImg p)) (naturalHeight (imgElement p)) = 0"
  shows "snd (convert_click pf p) = Settled \<and>
         isError (fst (convert_click pf p)) \<and>
         effects (fst (convert_click pf p)) = effects p \<and>
         canvasWidth (fst (convert_click pf p)) = canvasWidth p \<and>
         canvasHeight (fst (convert_click pf p)) = canvasHeight p \<and>
         (currentFile p \<noteq> None \<or> src (previewImg p) \<noteq> [] \<longrightarrow>
            convert_click pf p =
              (p\<lparr>message := Plain ''Image not ready yet. Wait a moment and try again.'',
                 isError := True\<rparr>, Settled))"
  using assms by (auto simp add: convert_click_def showMessage_def Let_def)

theorem convert_not_ready_witness:
  "convert_click plain_platform pending_page =
     (pending_page\<lparr>message := Plain ''Image not ready yet. Wait a moment and try again.'',
                    isError := True\<rparr>, Settled) \<and>
   effects (fst (convert_click plain_platform pending_page)) = effects pending_page"
proof -
  have a: "orElse (naturalWidth (previewImg pending_page))
             (naturalWidth (imgElement pending_page)) = 0 \<or>
           orElse (naturalHeight (previewImg pending_page))
             (naturalHeight (imgElement pending_page)) = 0"
    by (simp add: pending_page_def cat_page_def initial_def orElse_def)
  have b: "currentFile pending_page \<noteq> None \<or> src (previewImg pending_page) \<noteq> []"
    by (simp add: pending_page_def cat_page_def initial_def)
  from convert_not_ready [OF a, of plain_platform] b show ?thesis by blast
qed

subsection \<open>Encoding and download\<close>

text \<open>
  When the encoder hands \<open>null\<close> to the callback of \<open>toBlob\<close>, the conversion ends
  with the error \<open>Conversion failed (blob is empty).\<close> and no download is triggered.
\<close>

lemma toBlob_null_fails:
  "deliver pf (BlobReady None) (p, AwaitBlob j) =
     (p\<lparr>message := Plain ''Conversion failed (blob is empty).'', isError := True\<rparr>,
      Settled) \<and>
   downloads (fst (deliver pf (BlobReady None) (p, AwaitBlob j))) = downloads p \<and>
   effects (fst (deliver pf (BlobReady None) (p, AwaitBlob j))) = effects p"
  by (simp add: toBlob_callback_def showMessage_def downloads_def)

text \<open>
  On a platform without \<open>toBlob\<close>, a failed encode after the load of the auxiliary image
  is reported as well.
\<close>

lemma fallback_failure_after_temp:
  assumes "drawImageThrows pf = None" and "\<not> hasToBlob pf"
    and "dataURLBlob pf (outType j) (blobQuality (quality j)) = Inl err"
  shows "snd (deliver pf TempLoaded (p, AwaitTemp j tsrc)) = Settled \<and>
         message (fst (deliver pf TempLoaded (p, AwaitTemp j tsrc))) =
           Plain (''Conversion failed: '' @ err) \<and>
         isError (fst (deliver pf TempLoaded (p, AwaitTemp j tsrc)))"
  using assms by (simp add: temp_onload_def drawImage_def Let_def)

text \<open>
  When the preview is complete, the click handler draws and encodes before it shows
  \<open>Processing...\<close>; on a platform without \<open>toBlob\<close> the report of a failed encode is
  shown first and then replaced.
\<close>

lemma fallback_failure_unreported:
  assumes "ready p" and "previewReady p" and "drawImageThrows pf = None" and "\<not> hasToBlob pf"
    and "dataURLBlob pf (outTypeOf (formatSelect p))
           (number_div (qualityOf (qualityInput p)) 100) = Inl err"
  shows "snd (convert_click pf p) = Settled \<and>
         message (fst (convert_click pf p)) = Plain ''Processing...'' \<and>
         \<not> isError (fst (convert_click pf p)) \<and>
         filter isDownload (added p (fst (convert_click pf p))) = []"
proof -
  have "filter isDownload (added p (fst (convert_click pf p))) = []"
    using assms(4,5) by (simp add: convert_click_draw_added [OF assms(1-3)])
  then show ?thesis
    using assms(4) by (simp add: convert_click_draw [OF assms(1,2)] drawImage_pending [OF assms(3)])
qed

text \<open>
  C6: a conversion whose encode yields no bytes fails with the encode-failure report and
  triggers no download. On a platform without \<open>toBlob\<close>, for the example page with a
  1000 by 1 image and the requested width 400, the canvas is 400 by 0, the encode yields
  nothing and \<open>dataURLtoBlob\<close> throws; nothing is downloaded, but the conversion ends
  with \<open>Processing...\<close> on the status line and no error: the report
  \<open>Conversion failed: ...\<close> of line 148 is replaced by line 167.
\<close>

theorem fallback_failure_overwritten:
  "targetOf flat_page = (400, 0) \<and>
   added flat_page (fst (convert_click legacy_platform flat_page)) =
     [ClearRect 400 0, DrawImage 400 0,
      ToDataURL ''image/webp'' (Dbl 7205759403792794 (- 53))] \<and>
   dataURLBlob legacy_platform ''image/webp'' (Dbl 7205759403792794 (- 53)) =
     Inl ''null is not an object'' \<and>
   snd (convert_click legacy_platform flat_page) = Settled \<and>
   message (fst (convert_click legacy_platform flat_page)) = Plain ''Processing...'' \<and>
   \<not> isError (fst (convert_click legacy_platform flat_page))"
  by (simp add: convert_click_def flat_page_def cat_page_def initial_def legacy_platform_def
      orElse_def outTypeOf_def qualityOf_def requestedWidthOf_def parse_defs targetSize_def
      targetOf_def number_defs run_effect_def showMessage_def drawImage_def blobQuality_def
      added_def)

lemma stripExt_cut:
  "ext \<noteq> [] \<Longrightarrow> list_all extChar ext \<Longrightarrow> stripExt (b @ CHR ''.'' # ext) = b"
  by (induction b) (auto simp add: extChar_def)

lemma stripExt_keep:
  "(\<And>b ext. n = b @ CHR ''.'' # ext \<Longrightarrow> ext = [] \<or> \<not> list_all extChar ext) \<Longrightarrow>
   stripExt n = n"
proof (induction n)
  case Nil
  then show ?case by simp
next
  case (Cons c n)
  have "stripExt n = n"
  proof (rule Cons.IH)
    fix b ext
    assume "n = b @ CHR ''.'' # ext"
    then have "c # n = (c # b) @ CHR ''.'' # ext"
      by simp
    from Cons.prems [OF this] show "ext = [] \<or> \<not> list_all extChar ext" .
  qed
  moreover have "\<not> (c = CHR ''.'' \<and> n \<noteq> [] \<and> list_all extChar n)"
    using Cons.prems [of "[]" n] by auto
  ultimately show ?case by auto
qed

text \<open>
  C5: the name of the downloaded file is a base name, a dot, and the extension of the
  output type. The base name is \<open>converted-image\<close> when there is no file name;
  otherwise it is the file name without its last extension segment: a name that ends in
  a dot followed by one or more characters other than dot and slash loses that ending,
  and any other name is kept whole. The extension is \<open>jpg\<close>, \<open>png\<close> or \<open>webp\<close> for
  the three known types and \<open>img\<close> for any other. The three examples of the
  specification come out as stated, and the download that \<open>triggerDownload\<close> starts
  carries that name.
\<close>

theorem outName_derivation:
  "outName cf t =
     (case cf of
        None \<Rightarrow> ''converted-image''
      | Some f \<Rightarrow> if name f = [] then ''converted-image'' else stripExt (name f))
     @ ''.'' @ mimeToExt t \<and>
   (ext \<noteq> [] \<and> list_all extChar ext \<longrightarrow> stripExt (b @ ''.'' @ ext) = b) \<and>
   ((\<forall>b' ext'. n = b' @ ''.'' @ ext' \<longrightarrow> ext' = [] \<or> \<not> list_all extChar ext') \<longrightarrow>
      stripExt n = n) \<and>
   mimeToExt ''image/jpeg'' = ''jpg'' \<and> mimeToExt ''image/png'' = ''png'' \<and>
   mimeToExt ''image/webp'' = ''webp'' \<and>
   (t \<noteq> ''image/jpeg'' \<and> t \<noteq> ''image/png'' \<and> t \<noteq> ''image/webp'' \<longrightarrow>
      mimeToExt t = ''img'') \<and>
   outName (Some \<lparr>name = ''photo.png'', type = ty\<rparr>) ''image/webp'' = ''photo.webp'' \<and>
   outName (Some \<lparr>name = ''noext'', type = ty\<rparr>) ''image/png'' = ''noext.png'' \<and>
   outName None ''image/jpeg'' = ''converted-image.jpg'' \<and>
   effects (triggerDownload j bl p) =
     effects p @ [Download (outName (currentFile p) (outType j)) bl]"
proof -
  have 1: "ext \<noteq> [] \<and> list_all extChar ext \<longrightarrow> stripExt (b @ ''.'' @ ext) = b"
    using stripExt_cut [of ext b] by simp
  have 2: "(\<forall>b' ext'. n = b' @ ''.'' @ ext' \<longrightarrow> ext' = [] \<or> \<not> list_all extChar ext') \<longrightarrow>
      stripExt n = n"
    using stripExt_keep [of n] by simp
  have 3: "outName (Some \<lparr>name = ''photo.png'', type = ty\<rparr>) ''image/webp'' = ''photo.webp''"
    by (simp add: outName_def mimeToExt_def extChar_def)
  have 4: "outName (Some \<lparr>name = ''noext'', type = ty\<rparr>) ''image/png'' = ''noext.png''"
    by (simp add: outName_def mimeToExt_def extChar_def)
  have 5: "outName None ''image/jpeg'' = ''converted-image.jpg''"
    by (simp add: outName_def mimeToExt_def)
  have 6: "effects (triggerDownload j bl p) =
     effects p @ [Download (outName (currentFile p) (outType j)) bl]"
    by (simp add: triggerDownload_def Let_def)
  have 7: "outName cf t =
     (case cf of
        None \<Rightarrow> ''converted-image''
      | Some f \<Rightarrow> if name f = [] then ''converted-image'' else stripExt (name f))
     @ ''.'' @ mimeToExt t"
    by (simp add: outName_def Let_def)
  have 8: "mimeToExt ''image/jpeg'' = ''jpg'' \<and> mimeToExt ''image/png'' = ''png'' \<and>
     mimeToExt ''image/webp'' = ''webp'' \<and>
     (t \<noteq> ''image/jpeg'' \<and> t \<noteq> ''image/png'' \<and> t \<noteq> ''image/webp'' \<longrightarrow>
        mimeToExt t = ''img'')"
    by (simp add: mimeToExt_def)
  from 1 2 3 4 5 6 7 8 show ?thesis by blast
qed

theorem outName_derivation_witness:
  "stripExt ''archive.tar.gz'' = ''archive.tar'' \<and> stripExt ''noext'' = ''noext'' \<and>
   mimeToExt ''image/gif'' = ''img'' \<and>
   outName (Some \<lparr>name = ''photo.png'', type = ''image/png''\<rparr>) ''image/webp'' = ''photo.webp''"
proof -
  note all = outName_derivation [where ext = "''gz''" and b = "''archive.tar''"
      and n = "''noext''" and t = "''image/gif''" and ty = "''image/png''"]
  note rest = all [THEN conjunct2]
  have a: "''gz'' \<noteq> [] \<and> list_all extChar ''gz''"
    by (simp add: extChar_def)
  have b: "\<forall>b' ext'. ''noext'' = b' @ ''.'' @ ext' \<longrightarrow> ext' = [] \<or> \<not> list_all extChar ext'"
  proof (intro allI impI)
    fix b' ext' :: string
    assume "''noext'' = b' @ ''.'' @ ext'"
    then have "CHR ''.'' \<in> set ''noext''"
      by (metis in_set_conv_decomp append_Cons append_Nil)
    then show "ext' = [] \<or> \<not> list_all extChar ext'"
      by simp
  qed
  have c: "''image/gif'' \<noteq> ''image/jpeg'' \<and> ''image/gif'' \<noteq> ''image/png'' \<and>
     ''image/gif'' \<noteq> ''image/webp''"
    by simp
  from rest [THEN conjunct1, THEN mp, OF a]
  have 1: "stripExt ''archive.tar.gz'' = ''archive.tar''"
    by simp
  note rest = rest [THEN conjunct2]
  have 2: "stripExt ''noext'' = ''noext''"
    by (rule rest [THEN conjunct1, THEN mp, OF b])
  note rest = rest [THEN conjunct2, THEN conjunct2, THEN conjunct2, THEN conjunct2]
  have 3: "mimeToExt ''image/gif'' = ''img''"
    by (rule rest [THEN conjunct1, THEN mp, OF c])
  have 4: "outName (Some \<lparr>name = ''photo.png'', type = ''image/png''\<rparr>) ''image/webp''
     = ''photo.webp''"
    by (rule rest [THEN conjunct2, THEN conjunct1])
  show ?thesis
    by (intro conjI) (rule 1 2 3 4)+
qed

subsection \<open>Callbacks of a conversion\<close>

lemma tempLoads_upd [simp]:
  "tempLoads (showMessage m e p) = tempLoads p"
  "tempLoads (p\<lparr>previewImg := i\<rparr>) = tempLoads p"
  "tempLoads (p\<lparr>canvasWidth := w, canvasHeight := h\<rparr>) = tempLoads p"
  "tempLoads (run_effect x p) = (if isLoadTemp x then Suc (tempLoads p) else tempLoads p)"
  by (simp_all add: tempLoads_def showMessage_def run_effect_def)

lemma draws_upd [simp]:
  "draws (showMessage m e p) = draws p"
  "draws (p\<lparr>previewImg := i\<rparr>) = draws p"
  "draws (p\<lparr>canvasWidth := w, canvasHeight := h\<rparr>) = draws p"
  "draws (run_effect x p) = (if isDrawImage x then Suc (draws p) else draws p)"
  by (simp_all add: draws_def showMessage_def run_effect_def)

lemma triggerDownload_counts [simp]:
  "tempLoads (triggerDownload j b p) = tempLoads p"
  "draws (triggerDownload j b p) = draws p"
  by (simp_all add: triggerDownload_def Let_def)

lemma drawImage_tempLoads: "tempLoads (fst (drawImage pf j p)) = tempLoads p"
  by (simp add: drawImage_def Let_def split: option.splits sum.splits)

lemma drawImage_draws: "draws (fst (drawImage pf j p)) \<le> Suc (draws p)"
  by (simp add: drawImage_def Let_def split: option.splits sum.splits)

lemma drawImage_rank: "rank (snd (drawImage pf j p)) \<le> 1"
  by (simp add: drawImage_def Let_def split: option.splits sum.splits)

lemma drawImage_rank_less: "rank (snd (drawImage pf j p)) < 2"
  using drawImage_rank [of pf j p] by simp

lemma drawImage_rank_le: "rank (snd (drawImage pf j p)) \<le> 2"
  using drawImage_rank [of pf j p] by simp

lemma drawImage_drawsLeft: "drawsLeft (snd (drawImage pf j p)) = 0"
  by (simp add: drawImage_def Let_def split: option.splits sum.splits)

lemma drawImage_draws_src:
  "draws (fst (drawImage pf j (p\<lparr>previewImg := i\<rparr>))) \<le> Suc (draws p)"
  using drawImage_draws [of pf j "p\<lparr>previewImg := i\<rparr>"] by simp

lemma drawImage_draws_clear:
  "draws (fst (drawImage pf j
      (run_effect (ClearRect w h) (p\<lparr>canvasWidth := w, canvasHeight := h\<rparr>))))
     \<le> Suc (draws p)"
  using drawImage_draws [of pf j
      "run_effect (ClearRect w h) (p\<lparr>canvasWidth := w, canvasHeight := h\<rparr>)"]
  by simp

lemma deliver_tempLoads: "tempLoads (fst (deliver pf ev c)) = tempLoads (fst c)"
  by (induction pf ev c rule: deliver.induct)
     (simp_all add: temp_onload_def temp_onerror_def toBlob_callback_def drawImage_tempLoads
        split: option.splits)

lemma run_tempLoads: "tempLoads (fst (run pf evs c)) = tempLoads (fst c)"
  by (induction evs arbitrary: c) (simp_all add: deliver_tempLoads)

lemma deliver_rank:
  "registered ev (snd c) \<Longrightarrow> rank (snd (deliver pf ev c)) < rank (snd c)"
  by (induction pf ev c rule: deliver.induct)
     (simp_all add: temp_onload_def drawImage_rank_less)

lemma deliver_idle: "\<not> registered ev (snd c) \<Longrightarrow> deliver pf ev c = c"
  by (induction pf ev c rule: deliver.induct) simp_all

lemma callbacks_rank: "callbacks pf evs c \<le> rank (snd c)"
proof (induction evs arbitrary: c)
  case Nil
  then show ?case by simp
next
  case (Cons ev evs)
  show ?case
  proof (cases "registered ev (snd c)")
    case True
    from deliver_rank [OF True, of pf] Cons.IH [of "deliver pf ev c"] True
    show ?thesis by simp
  next
    case False
    with deliver_idle [OF False, of pf] Cons.IH [of c] show ?thesis by simp
  qed
qed

lemma deliver_draws:
  "draws (fst (deliver pf ev c)) + drawsLeft (snd (deliver pf ev c))
     \<le> draws (fst c) + drawsLeft (snd c)"
  by (induction pf ev c rule: deliver.induct)
     (simp_all add: temp_onload_def temp_onerror_def toBlob_callback_def drawImage_drawsLeft
        drawImage_draws_src split: option.splits)

lemma run_draws:
  "draws (fst (run pf evs c)) + drawsLeft (snd (run pf evs c))
     \<le> draws (fst c) + drawsLeft (snd c)"
proof (induction evs arbitrary: c)
  case Nil
  then show ?case by simp
next
  case (Cons ev evs)
  from Cons.IH [of "deliver pf ev c"] deliver_draws [of pf ev c] show ?case by simp
qed

lemma convert_click_rank: "rank (snd (convert_click pf p)) \<le> 2"
  by (simp add: convert_click_def Let_def case_prod_beta drawImage_rank_le)

lemma convert_click_tempLoads:
  "tempLoads (fst (convert_click pf p)) \<le> Suc (tempLoads p)"
  by (simp add: convert_click_def Let_def case_prod_beta drawImage_tempLoads)

lemma convert_click_complete_tempLoads:
  "complete (previewImg p) \<and> naturalWidth (previewImg p) \<noteq> 0 \<Longrightarrow>
   tempLoads (fst (convert_click pf p)) = tempLoads p"
  by (simp add: convert_click_def Let_def case_prod_beta drawImage_tempLoads)

lemma convert_click_draws:
  "draws (fst (convert_click pf p)) + drawsLeft (snd (convert_click pf p)) \<le> Suc (draws p)"
  by (simp add: convert_click_def Let_def case_prod_beta drawImage_drawsLeft
      drawImage_draws_clear)

text \<open>
  C7: a conversion ends. The click handler has no loop and registers at most one
  callback; whatever events follow, at most two callbacks ever run (the load of the
  auxiliary image, then the encoder's answer), each one brings the conversion strictly
  nearer to its end, and an event without a registered callback changes nothing. The
  auxiliary image is loaded at most once, and not at all when the preview is complete at
  the click; no callback waits for it a second time; the image is drawn at most once.
\<close>

theorem conversion_terminates:
  "callbacks pf evs (convert_click pf p) \<le> 2 \<and>
   tempLoads (fst (run pf evs (convert_click pf p))) \<le> tempLoads p + 1 \<and>
   draws (fst (run pf evs (convert_click pf p))) \<le> draws p + 1 \<and>
   (complete (previewImg p) \<and> naturalWidth (previewImg p) \<noteq> 0 \<longrightarrow>
      tempLoads (fst (run pf evs (convert_click pf p))) = tempLoads p) \<and>
   (registered ev (snd c) \<longrightarrow> rank (snd (deliver pf ev c)) < rank (snd c)) \<and>
   (\<not> registered ev (snd c) \<longrightarrow> deliver pf ev c = c) \<and>
   (\<forall>j tsrc. snd (deliver pf ev c) \<noteq> AwaitTemp j tsrc \<or> deliver pf ev c = c)"
proof -
  have 1: "callbacks pf evs (convert_click pf p) \<le> 2"
    using callbacks_rank [of pf evs "convert_click pf p"] convert_click_rank [of pf p]
    by simp
  have 2: "tempLoads (fst (run pf evs (convert_click pf p))) \<le> tempLoads p + 1"
    using convert_click_tempLoads [of pf p] by (simp add: run_tempLoads)
  have 3: "complete (previewImg p) \<and> naturalWidth (previewImg p) \<noteq> 0 \<longrightarrow>
      tempLoads (fst (run pf evs (convert_click pf p))) = tempLoads p"
    by (simp add: run_tempLoads convert_click_complete_tempLoads)
  have 4: "registered ev (snd c) \<longrightarrow> rank (snd (deliver pf ev c)) < rank (snd c)"
    by (simp add: deliver_rank)
  have 5: "\<not> registered ev (snd c) \<longrightarrow> deliver pf ev c = c"
    by (simp add: deliver_idle)
  have 6: "\<forall>j tsrc. snd (deliver pf ev c) \<noteq> AwaitTemp j tsrc \<or> deliver pf ev c = c"
  proof (cases "registered ev (snd c)")
    case True
    from deliver_rank [OF True, of pf] have "rank (snd (deliver pf ev c)) < 2"
      by (cases "snd c") simp_all
    then show ?thesis
      by (cases "snd (deliver pf ev c)") simp_all
  next
    case False
    then show ?thesis
      by (simp add: deliver_idle)
  qed
  have 7: "draws (fst (run pf evs (convert_click pf p))) \<le> draws p + 1"
    using run_draws [of pf evs "convert_click pf p"] convert_click_draws [of pf p]
    by simp
  from 1 2 3 4 5 6 7 show ?thesis by blast
qed

theorem conversion_terminates_witness:
  "tempLoads (fst (run plain_platform [TempLoaded, BlobReady None]
      (convert_click plain_platform cat_page))) = tempLoads cat_page \<and>
   rank (snd (deliver plain_platform (BlobReady None)
      (cat_page, AwaitBlob \<lparr>outType = ''image/webp'', quality = 80\<rparr>))) < 1 \<and>
   deliver plain_platform TempLoaded (cat_page, Settled) = (cat_page, Settled)"
proof -
  have a: "complete (previewImg cat_page) \<and> naturalWidth (previewImg cat_page) \<noteq> 0"
    by (simp add: cat_page_def initial_def)
  have b: "registered (BlobReady None)
     (snd (cat_page, AwaitBlob \<lparr>outType = ''image/webp'', quality = 80\<rparr>))"
    by simp
  have c: "\<not> registered TempLoaded (snd (cat_page, Settled))"
    by simp
  note t1 = conversion_terminates [where pf = plain_platform and p = cat_page
      and evs = "[TempLoaded, BlobReady None]" and ev = "BlobReady None"
      and c = "(cat_page, AwaitBlob \<lparr>outType = ''image/webp'', quality = 80\<rparr>)"]
  note t2 = conversion_terminates [where pf = plain_platform and p = cat_page
      and evs = "[]" and ev = TempLoaded and c = "(cat_page, Settled)"]
  note r1 = t1 [THEN conjunct2, THEN conjunct2, THEN conjunct2]
  note r2 = t2 [THEN conjunct2, THEN conjunct2, THEN conjunct2, THEN conjunct2,
      THEN conjunct2]
  have 1: "tempLoads (fst (run plain_platform [TempLoaded, BlobReady None]
      (convert_click plain_platform cat_page))) = tempLoads cat_page"
    by (rule r1 [THEN conjunct1, THEN mp, OF a])
  from r1 [THEN conjunct2, THEN conjunct1, THEN mp, OF b]
  have 2: "rank (snd (deliver plain_platform (BlobReady None)
      (cat_page, AwaitBlob \<lparr>outType = ''image/webp'', quality = 80\<rparr>))) < 1"
    by simp
  have 3: "deliver plain_platform TempLoaded (cat_page, Settled) = (cat_page, Settled)"
    by (rule r2 [THEN conjunct1, THEN mp, OF c])
  show ?thesis
    by (intro conjI) (rule 1 2 3)+
qed

subsection \<open>The output type\<close>

lemma endsWith_append: "endsWith (a @ suf) suf"
  by (simp add: endsWith_def)

lemma outName_endsWith: "endsWith (outName cf t) (''.'' @ mimeToExt t)"
  unfolding outName_def Let_def by (rule endsWith_append)

lemma conforms_showMessage [simp]:
  "conforms t n (showMessage m e p, w) = conforms t n (p, w)"
  by (simp add: conforms_def)

lemma conforms_src [simp]:
  "conforms t n (p\<lparr>previewImg := i\<rparr>, w) = conforms t n (p, w)"
  by (simp add: conforms_def)

lemma conforms_effect:
  "conforms t n (run_effect x p, w') =
     (conforms t n (p, Settled) \<and> usesType t x \<and> jobType t w')"
  if "n \<le> length (effects p)"
  using that by (auto simp add: conforms_def)

lemma conforms_pending:
  "conforms t n (p, w) \<Longrightarrow> jobType t w' \<Longrightarrow> conforms t n (p, w')"
  by (simp add: conforms_def)

lemma triggerDownload_conforms:
  assumes "conforms t n (p, w)" and "outType j = t"
  shows "conforms t n (triggerDownload j b p, Settled)"
proof -
  from assms(1) have n: "n \<le> length (effects p)" and c: "conforms t n (p, Settled)"
    by (simp_all add: conforms_def)
  from outName_endsWith [of "currentFile p" t] assms(2) c show ?thesis
    by (simp add: triggerDownload_def Let_def conforms_effect [OF n])
qed

lemma drawImage_conforms:
  assumes "conforms t n (p, w)" and "outType j = t"
  shows "conforms t n (drawImage pf j p)"
proof -
  from assms(1) have n: "n \<le> length (effects p)" and c: "conforms t n (p, Settled)"
    by (simp_all add: conforms_def)
  let ?p1 = "run_effect (DrawImage (canvasWidth p) (canvasHeight p)) p"
  have c1: "conforms t n (?p1, Settled)"
    using c by (simp add: conforms_effect [OF n])
  have n1: "n \<le> length (effects ?p1)"
    using n by simp
  let ?p2 = "run_effect (ToDataURL (outType j) (blobQuality (quality j))) ?p1"
  have c2: "conforms t n (?p2, Settled)"
    using c1 assms(2) by (simp add: conforms_effect [OF n1])
  have c3: "conforms t n
     (run_effect (ToBlob (outType j) (blobQuality (quality j))) ?p1, AwaitBlob j)"
    using c1 assms(2) by (simp add: conforms_effect [OF n1])
  show ?thesis
    using c c2 c3 triggerDownload_conforms [OF c2 assms(2)]
    by (simp add: drawImage_def Let_def split: option.splits sum.splits)
qed

lemma deliver_conforms: "conforms t n c \<Longrightarrow> conforms t n (deliver pf ev c)"
proof (induction pf ev c rule: deliver.induct)
  case (1 pf p j tsrc)
  then have "outType j = t"
    by (simp add: conforms_def)
  with 1 show ?case
    by (simp add: temp_onload_def drawImage_conforms)
next
  case (2 pf p j tsrc)
  then show ?case
    by (simp add: temp_onerror_def conforms_pending)
next
  case (3 pf b p j)
  then have "outType j = t"
    by (simp add: conforms_def)
  with 3 show ?case
    by (cases b) (simp_all add: toBlob_callback_def conforms_pending triggerDownload_conforms)
qed simp_all

lemma run_conforms: "conforms t n c \<Longrightarrow> conforms t n (run pf evs c)"
  by (induction evs arbitrary: c) (simp_all add: deliver_conforms)

lemma conforms_start: "conforms t (length (effects p)) (p, Settled)"
  by (simp add: conforms_def)

lemma convert_click_conforms:
  "conforms (outTypeOf (formatSelect p)) (length (effects p)) (convert_click pf p)"
proof -
  let ?t = "outTypeOf (formatSelect p)" and ?n = "length (effects p)"
  have a: "\<And>w h. conforms ?t ?n
     (run_effect (ClearRect w h) (p\<lparr>canvasWidth := w, canvasHeight := h\<rparr>), Settled)"
    by (simp add: conforms_def)
  have b: "\<And>w h j. outType j = ?t \<Longrightarrow>
     conforms ?t ?n (drawImage pf j
       (run_effect (ClearRect w h) (p\<lparr>canvasWidth := w, canvasHeight := h\<rparr>)))"
    by (rule drawImage_conforms [OF a])
  have c: "\<And>w h j s. outType j = ?t \<Longrightarrow>
     conforms ?t ?n
       (run_effect (LoadTemp s)
          (run_effect (ClearRect w h) (p\<lparr>canvasWidth := w, canvasHeight := h\<rparr>)),
        AwaitTemp j s)"
    using a by (simp add: conforms_effect)
  show ?thesis
    by (simp add: convert_click_def Let_def case_prod_beta conforms_start b c)
qed

text \<open>
  C8: with no output format selected the conversion uses \<open>image/png\<close>, for encoding
  and for the extension. A conversion that gets to draw makes exactly one encoder call,
  in the click handler when the preview is complete and after the load of the auxiliary
  image otherwise, and the type of that call is \<open>image/png\<close>. When the encoder hands
  back a blob, through the callback of \<open>toBlob\<close> or from the fallback, exactly one
  download is triggered, and its name is the base name followed by \<open>.png\<close>. Whatever
  events follow the click, no encoder call of the conversion has another type, no
  download another extension, and a callback still registered has captured
  \<open>image/png\<close>.
\<close>

theorem default_output_type:
  assumes "formatSelect p = []"
  shows "(ready p \<and> previewReady p \<and> drawImageThrows pf = None \<longrightarrow>
            map fst (encoderCalls (added p (fst (convert_click pf p)))) = [''image/png'']) \<and>
         (ready p \<and> \<not> previewReady p \<and> drawImageThrows pf = None \<longrightarrow>
            map fst (encoderCalls (added p (fst (run pf [TempLoaded] (convert_click pf p)))))
              = [''image/png'']) \<and>
         (ready p \<and> previewReady p \<and> drawImageThrows pf = None \<and> hasToBlob pf \<longrightarrow>
            filter isDownload
              (added p (fst (run pf [BlobReady (Some b)] (convert_click pf p)))) =
              [Download (outName (currentFile p) ''image/png'') b]) \<and>
         (ready p \<and> \<not> previewReady p \<and> drawImageThrows pf = None \<and> hasToBlob pf \<longrightarrow>
            filter isDownload
              (added p (fst (run pf [TempLoaded, BlobReady (Some b)] (convert_click pf p)))) =
              [Download (outName (currentFile p) ''image/png'') b]) \<and>
         (ready p \<and> previewReady p \<and> drawImageThrows pf = None \<and> \<not> hasToBlob pf \<and>
          dataURLBlob pf ''image/png'' (number_div (qualityOf (qualityInput p)) 100) = Inr b \<longrightarrow>
            filter isDownload (added p (fst (convert_click pf p))) =
              [Download (outName (currentFile p) ''image/png'') b]) \<and>
         outName cf ''image/png'' =
           (case cf of
              None \<Rightarrow> ''converted-image''
            | Some f \<Rightarrow> if name f = [] then ''converted-image'' else stripExt (name f))
           @ ''.png'' \<and>
         list_all (usesType ''image/png'')
           (drop (length (effects p)) (effects (fst (run pf evs (convert_click pf p))))) \<and>
         jobType ''image/png'' (snd (run pf evs (convert_click pf p))) \<and>
         outTypeOf (formatSelect p) = ''image/png'' \<and>
         mimeToExt (outTypeOf (formatSelect p)) = ''png''"
proof -
  have t: "outTypeOf (formatSelect p) = ''image/png''"
    using assms by (simp add: outTypeOf_def)
  have 1: "map fst (encoderCalls (added p (fst (convert_click pf p)))) = [''image/png'']"
    if h: "ready p \<and> previewReady p \<and> drawImageThrows pf = None"
  proof -
    from h have a: "ready p" "previewReady p" "drawImageThrows pf = None"
      by simp_all
    show ?thesis
      unfolding convert_click_draw_added [OF a] t
      by (auto simp add: encoderCalls_def split: sum.splits)
  qed
  have 2: "map fst (encoderCalls (added p (fst (run pf [TempLoaded] (convert_click pf p)))))
      = [''image/png'']"
    if h: "ready p \<and> \<not> previewReady p \<and> drawImageThrows pf = None"
  proof -
    from h have a: "ready p" "\<not> previewReady p" "drawImageThrows pf = None"
      by simp_all
    show ?thesis
      unfolding convert_click_temp_added [OF a] t
      by (auto simp add: encoderCalls_def split: sum.splits)
  qed
  have 3: "filter isDownload
        (added p (fst (run pf [BlobReady (Some b)] (convert_click pf p)))) =
        [Download (outName (currentFile p) ''image/png'') b]"
    if h: "ready p \<and> previewReady p \<and> drawImageThrows pf = None \<and> hasToBlob pf"
  proof -
    from h have a: "ready p" "previewReady p" "drawImageThrows pf = None" "hasToBlob pf"
      by simp_all
    show ?thesis
      unfolding convert_click_blob_added [OF a] t by simp
  qed
  have 4: "filter isDownload
        (added p (fst (run pf [TempLoaded, BlobReady (Some b)] (convert_click pf p)))) =
        [Download (outName (currentFile p) ''image/png'') b]"
    if h: "ready p \<and> \<not> previewReady p \<and> drawImageThrows pf = None \<and> hasToBlob pf"
  proof -
    from h have a: "ready p" "\<not> previewReady p" "drawImageThrows pf = None" "hasToBlob pf"
      by simp_all
    show ?thesis
      unfolding convert_click_temp_blob_added [OF a] t by simp
  qed
  have 5: "filter isDownload (added p (fst (convert_click pf p))) =
        [Download (outName (currentFile p) ''image/png'') b]"
    if h: "ready p \<and> previewReady p \<and> drawImageThrows pf = None \<and> \<not> hasToBlob pf \<and>
      dataURLBlob pf ''image/png'' (number_div (qualityOf (qualityInput p)) 100) = Inr b"
  proof -
    from h have a: "ready p" "previewReady p" "drawImageThrows pf = None"
      and n: "\<not> hasToBlob pf"
      and r: "dataURLBlob pf ''image/png'' (number_div (qualityOf (qualityInput p)) 100)
        = Inr b"
      by simp_all
    show ?thesis
      unfolding convert_click_draw_added [OF a] t using n r by simp
  qed
  have 6: "outName cf ''image/png'' =
      (case cf of
         None \<Rightarrow> ''converted-image''
       | Some f \<Rightarrow> if name f = [] then ''converted-image'' else stripExt (name f))
      @ ''.png''"
    by (simp add: outName_def mimeToExt_def)
  have 7: "list_all (usesType ''image/png'')
        (drop (length (effects p)) (effects (fst (run pf evs (convert_click pf p))))) \<and>
      jobType ''image/png'' (snd (run pf evs (convert_click pf p))) \<and>
      outTypeOf (formatSelect p) = ''image/png'' \<and>
      mimeToExt (outTypeOf (formatSelect p)) = ''png''"
    using run_conforms [where pf = pf and evs = evs,
        OF convert_click_conforms [where p = p and pf = pf]] assms
    by (simp add: conforms_def outTypeOf_def mimeToExt_def)
  from 1 2 3 4 5 6 7 show ?thesis by blast
qed

theorem default_output_type_witness:
  "map fst (encoderCalls (added unselected_page
      (fst (convert_click plain_platform unselected_page)))) = [''image/png''] \<and>
   filter isDownload (added unselected_page
      (fst (run plain_platform [BlobReady (Some \<lparr>bytes = 20480, mime = ''image/png''\<rparr>)]
         (convert_click plain_platform unselected_page)))) =
     [Download ''cat.png'' \<lparr>bytes = 20480, mime = ''image/png''\<rparr>]"
proof -
  have a: "formatSelect unselected_page = []"
    by (simp add: unselected_page_def)
  have b: "ready unselected_page \<and> previewReady unselected_page \<and>
      drawImageThrows plain_platform = None"
    by (simp add: ready_def previewReady_def unselected_page_def cat_page_def initial_def
        plain_platform_def orElse_def)
  have c: "ready unselected_page \<and> previewReady unselected_page \<and>
      drawImageThrows plain_platform = None \<and> hasToBlob plain_platform"
    using b by (simp add: plain_platform_def)
  have n: "outName (currentFile unselected_page) ''image/png'' = ''cat.png''"
    by (simp add: unselected_page_def cat_page_def outName_def mimeToExt_def extChar_def)
  note t = default_output_type [OF a, where pf = plain_platform
      and b = "\<lparr>bytes = 20480, mime = ''image/png''\<rparr>"]
  have 1: "map fst (encoderCalls (added unselected_page
      (fst (convert_click plain_platform unselected_page)))) = [''image/png'']"
    by (rule t [THEN conjunct1, THEN mp, OF b])
  from t [THEN conjunct2, THEN conjunct2, THEN conjunct1, THEN mp, OF c]
  have 2: "filter isDownload (added unselected_page
      (fst (run plain_platform [BlobReady (Some \<lparr>bytes = 20480, mime = ''image/png''\<rparr>)]
         (convert_click plain_platform unselected_page)))) =
     [Download ''cat.png'' \<lparr>bytes = 20480, mime = ''image/png''\<rparr>]"
    by (simp only: n)
  show ?thesis
    by (intro conjI) (rule 1 2)+
qed

subsection \<open>The specification's scenario\<close>

text \<open>
  An 800 by 600 image \<open>cat.png\<close>, WebP, quality 80, width 400: the canvas is 400 by
  300, the encoder is asked for \<open>image/webp\<close> at 0.8, and the download is \<open>cat.webp\<close>.
\<close>

lemma cat_conversion:
  "run plain_platform [BlobReady (Some \<lparr>bytes = 20480, mime = ''image/webp''\<rparr>)]
     (convert_click plain_platform cat_page) =
   (cat_page\<lparr>canvasWidth := 400, canvasHeight := 300,
      message := Converted ''cat.webp'' 20, isError := False,
      effects := [ClearRect 400 300, DrawImage 400 300,
                  ToBlob ''image/webp'' (Dbl 7205759403792794 (- 53)),
                  Download ''cat.webp'' \<lparr>bytes = 20480, mime = ''image/webp''\<rparr>]\<rparr>, Settled)"
  by (simp add: convert_click_def cat_page_def initial_def plain_platform_def orElse_def
      outTypeOf_def qualityOf_def requestedWidthOf_def parse_defs targetSize_def number_defs
      run_effect_def showMessage_def drawImage_def blobQuality_def toBlob_callback_def
      triggerDownload_def outName_def mimeToExt_def extChar_def)

end
